theory Spec2Isabelle
  imports Main "HOL-Library.Multiset"
begin

section \<open>Catalog rows and timetable entries\<close>

text \<open>
  The rows that \<^verbatim>\<open>generateTimetableMutation.mutationFn\<close> of
  \<^verbatim>\<open>src/pages/Timetable.tsx\<close> (the hourly-slot variant) reads from the relational store.
  Identifiers are UUID strings. Only the columns the generator reads are kept:
  \<^verbatim>\<open>section.name\<close>, \<^verbatim>\<open>section.year_level\<close>; \<^verbatim>\<open>subject.id\<close>, \<^verbatim>\<open>subject.weekly_hours\<close>,
  \<^verbatim>\<open>subject.has_lab\<close>, \<^verbatim>\<open>subject.has_tutorial\<close>; \<^verbatim>\<open>fs.faculty_id\<close>, \<^verbatim>\<open>fs.subject_id\<close>,
  \<^verbatim>\<open>fs.subject_types\<close> (a nullable text array); \<^verbatim>\<open>classroom.id\<close>.
\<close>

record section_row =
  sec_id :: string
  sec_name :: string
  sec_year_level :: string

record subject_row =
  subj_id :: string
  subj_year_level :: string
  weekly_hours :: int
  has_lab :: bool
  has_tutorial :: bool

record faculty_subject =
  fs_faculty_id :: string
  fs_subject_id :: string
  fs_subject_types :: "string list option"

record classroom =
  room_id :: string
  room_type :: string

text \<open>
  A row of the \<^verbatim>\<open>timetable\<close> table, and equally an object pushed onto
  \<^verbatim>\<open>timetableEntries\<close>. The store returns \<^verbatim>\<open>TIME\<close> columns as \<^verbatim>\<open>HH:MM:SS\<close>; the
  generator writes \<^verbatim>\<open>HH:MM\<close>.
\<close>

record entry =
  section_id :: string
  subject_id :: string
  faculty_id :: string
  classroom_id :: string
  day_of_week :: string
  start_time :: string
  end_time :: string
  subject_type :: string
  batch_number :: "nat option"

record batch =
  number :: nat
  batch_name :: string

section \<open>Constants of the page\<close>

definition timeSlots :: "string list" where
  "timeSlots = [''08:00'', ''09:00'', ''10:00'', ''11:00'', ''12:00'',
                ''13:00'', ''14:00'', ''15:00'', ''16:00'', ''17:00'']"

definition daysOfWeek :: "string list" where
  "daysOfWeek = [''Monday'', ''Tuesday'', ''Wednesday'', ''Thursday'', ''Friday'']"

definition BREAK_START :: nat where
  "BREAK_START = 4"

text \<open>\<^verbatim>\<open>Array.prototype.indexOf\<close>; the result \<^verbatim>\<open>-1\<close> is \<open>None\<close>.\<close>

fun indexOf :: "'a list \<Rightarrow> 'a \<Rightarrow> nat option" where
  "indexOf [] x = None"
| "indexOf (y # ys) x = (if y = x then Some 0 else map_option Suc (indexOf ys x))"

definition getTimeIndex :: "string \<Rightarrow> nat option" where
  "getTimeIndex time = indexOf timeSlots time"

definition isBreakTime :: "nat \<Rightarrow> bool" where
  "isBreakTime timeIndex \<longleftrightarrow> timeIndex = BREAK_START"

section \<open>The random source\<close>

text \<open>
  The generator shuffles with \<^verbatim>\<open>xs.sort(() => Math.random() - 0.5)\<close>. What order comes out
  depends on the engine's sort and on the values \<^verbatim>\<open>Math.random\<close> returns; neither is an input of
  \<^verbatim>\<open>mutationFn\<close>. The model takes the outcome of every such sort from the environment:
  \<open>sortDays\<close> for the one sort of \<^verbatim>\<open>daysOfWeek\<close>, and \<open>sortTimes k\<close>, \<open>sortBatches k\<close> for the
  sort performed as the \<open>k\<close>-th of the later sorts of the run. A sort rearranges its argument,
  which \<open>rng_ok\<close> states.
\<close>

record rng =
  sortDays :: "string list \<Rightarrow> string list"
  sortTimes :: "nat \<Rightarrow> nat list \<Rightarrow> nat list"
  sortBatches :: "nat \<Rightarrow> batch list \<Rightarrow> batch list"

definition rng_ok :: "rng \<Rightarrow> bool" where
  "rng_ok R \<longleftrightarrow>
     (\<forall>xs. mset (sortDays R xs) = mset xs) \<and>
     (\<forall>k xs. mset (sortTimes R k xs) = mset xs) \<and>
     (\<forall>k xs. mset (sortBatches R k xs) = mset xs)"

definition getRandomStartTimes :: "rng \<Rightarrow> nat \<Rightarrow> nat list" where
  "getRandomStartTimes R k = sortTimes R k [0, 1, 2, 3, 5, 6, 7, 8, 9]"

definition shuffledDays :: "rng \<Rightarrow> string list" where
  "shuffledDays R = sortDays R daysOfWeek"

section \<open>Scheduling state\<close>

text \<open>
  The mutable closures of \<^verbatim>\<open>mutationFn\<close>. \<^verbatim>\<open>schedule[day]\<close>, \<^verbatim>\<open>facultySchedule[day]\<close> and
  \<^verbatim>\<open>classroomSchedule[day]\<close> are arrays of \<^verbatim>\<open>timeSlots.length\<close> cells that every loop reads
  and writes below that length only, so a cell is addressed by its day and index. A day row
  that the seeding loop creates on demand starts with empty sets, which is the value of an
  untouched cell here. \<^verbatim>\<open>facultyUsageCount[id] || 0\<close> reads an absent key as 0.
  \<open>sortCalls\<close> counts the shuffles performed after \<^verbatim>\<open>shuffledDays\<close>.
\<close>

record gen_state =
  schedule :: "string \<Rightarrow> nat \<Rightarrow> entry option"
  facultySchedule :: "string \<Rightarrow> nat \<Rightarrow> string set"
  classroomSchedule :: "string \<Rightarrow> nat \<Rightarrow> string set"
  subjectWeeklyHours :: "string \<Rightarrow> nat"
  timetableEntries :: "entry list"
  dailySubjectLectures :: "string \<Rightarrow> string set"
  lectureRoomIndex :: nat
  labRoomIndex :: nat
  tutorialRoomIndex :: nat
  facultyUsageCount :: "string \<Rightarrow> nat"
  sortCalls :: nat

definition initialState :: gen_state where
  "initialState =
     \<lparr>schedule = (\<lambda>day i. None),
      facultySchedule = (\<lambda>day i. {}),
      classroomSchedule = (\<lambda>day i. {}),
      subjectWeeklyHours = (\<lambda>s. 0),
      timetableEntries = [],
      dailySubjectLectures = (\<lambda>day. {}),
      lectureRoomIndex = 0,
      labRoomIndex = 0,
      tutorialRoomIndex = 0,
      facultyUsageCount = (\<lambda>f. 0),
      sortCalls = 0\<rparr>"

text \<open>The cells a loop \<^verbatim>\<open>for (i = timeIndex; i < endIndex && i < timeSlots.length; i++)\<close> visits.\<close>

definition slotRange :: "nat \<Rightarrow> nat \<Rightarrow> nat list" where
  "slotRange timeIndex endIndex = [i \<leftarrow> [timeIndex..<endIndex]. i < length timeSlots]"

definition isSlotAvailable :: "gen_state \<Rightarrow> string \<Rightarrow> nat \<Rightarrow> nat \<Rightarrow> bool" where
  "isSlotAvailable st day timeIndex duration \<longleftrightarrow>
     (let endIndex = timeIndex + duration in
      list_all (\<lambda>i. schedule st day i = None) (slotRange timeIndex endIndex) \<and>
      endIndex \<le> length timeSlots)"

definition isFacultyAvailable :: "gen_state \<Rightarrow> string \<Rightarrow> string \<Rightarrow> nat \<Rightarrow> nat \<Rightarrow> bool" where
  "isFacultyAvailable st facultyId day timeIndex duration \<longleftrightarrow>
     (let endIndex = timeIndex + duration in
      list_all (\<lambda>i. facultyId \<notin> facultySchedule st day i) (slotRange timeIndex endIndex))"

definition isClassroomAvailable :: "gen_state \<Rightarrow> string \<Rightarrow> string \<Rightarrow> nat \<Rightarrow> nat \<Rightarrow> bool" where
  "isClassroomAvailable st classroomId day timeIndex duration \<longleftrightarrow>
     (let endIndex = timeIndex + duration in
      list_all (\<lambda>i. classroomId \<notin> classroomSchedule st day i) (slotRange timeIndex endIndex))"

definition markCell :: "string \<Rightarrow> string \<Rightarrow> string \<Rightarrow> entry \<Rightarrow> nat \<Rightarrow> gen_state \<Rightarrow> gen_state" where
  "markCell day facultyId classroomId e i st =
     st\<lparr>schedule := (schedule st)(day := (schedule st day)(i := Some e)),
        facultySchedule :=
          (facultySchedule st)(day := (facultySchedule st day)(i := insert facultyId (facultySchedule st day i))),
        classroomSchedule :=
          (classroomSchedule st)(day := (classroomSchedule st day)(i := insert classroomId (classroomSchedule st day i)))\<rparr>"

definition markSlotOccupied ::
  "string \<Rightarrow> nat \<Rightarrow> nat \<Rightarrow> string \<Rightarrow> string \<Rightarrow> entry \<Rightarrow> gen_state \<Rightarrow> gen_state" where
  "markSlotOccupied day timeIndex duration facultyId classroomId e st =
     fold (markCell day facultyId classroomId e) (slotRange timeIndex (timeIndex + duration)) st"

section \<open>Seeding from the other sections' entries\<close>

definition seedCell :: "entry \<Rightarrow> nat \<Rightarrow> gen_state \<Rightarrow> gen_state" where
  "seedCell e i st =
     st\<lparr>facultySchedule :=
          (facultySchedule st)(day_of_week e :=
             (facultySchedule st (day_of_week e))(i := insert (faculty_id e) (facultySchedule st (day_of_week e) i))),
        classroomSchedule :=
          (classroomSchedule st)(day_of_week e :=
             (classroomSchedule st (day_of_week e))(i := insert (classroom_id e) (classroomSchedule st (day_of_week e) i)))\<rparr>"

text \<open>
  The body of \<^verbatim>\<open>existingTimetable.forEach\<close>. \<^verbatim>\<open>duration = endIndex - startIndex\<close> may be
  negative, so it is an integer; the loop runs over
  \<^verbatim>\<open>i = startIndex; i < startIndex + duration && i < timeSlots.length\<close>.
\<close>

definition seedEntry :: "entry \<Rightarrow> gen_state \<Rightarrow> gen_state" where
  "seedEntry e st =
     (case (getTimeIndex (take 5 (start_time e)), getTimeIndex (take 5 (end_time e))) of
        (Some startIndex, Some endIndex) \<Rightarrow>
          (let duration = int endIndex - int startIndex in
           fold (seedCell e)
             [i \<leftarrow> [startIndex..<length timeSlots]. int i < int startIndex + duration] st)
      | _ \<Rightarrow> st)"

section \<open>Searching a start slot\<close>

text \<open>
  The test both loops of \<^verbatim>\<open>findBestTimeSlot\<close> apply to a start index: not the break, no
  cell of the class in the break, and section, faculty and classroom free.
\<close>

definition spansBreak :: "nat \<Rightarrow> nat \<Rightarrow> bool" where
  "spansBreak startIndex duration \<longleftrightarrow> list_ex isBreakTime [startIndex..<startIndex + duration]"

definition slotFits :: "gen_state \<Rightarrow> string \<Rightarrow> nat \<Rightarrow> string \<Rightarrow> classroom \<Rightarrow> nat \<Rightarrow> bool" where
  "slotFits st day duration facultyId room startIndex \<longleftrightarrow>
     \<not> isBreakTime startIndex \<and> \<not> spansBreak startIndex duration \<and>
     isSlotAvailable st day startIndex duration \<and>
     isFacultyAvailable st facultyId day startIndex duration \<and>
     isClassroomAvailable st (room_id room) day startIndex duration"

text \<open>
  \<^verbatim>\<open>findBestTimeSlot(day, duration, facultyId, classroom)\<close>: every caller leaves
  \<^verbatim>\<open>preferredTimes\<close> out, so \<^verbatim>\<open>timesToTry\<close> is a fresh shuffle; the second loop runs over
  \<^verbatim>\<open>0 <= i < timeSlots.length - duration\<close>. \<open>None\<close> is \<^verbatim>\<open>null\<close>.
\<close>

definition findBestTimeSlot :: "rng \<Rightarrow> gen_state \<Rightarrow> string \<Rightarrow> nat \<Rightarrow> string \<Rightarrow> classroom \<Rightarrow> nat option" where
  "findBestTimeSlot R st day duration facultyId room =
     (let timesToTry = getRandomStartTimes R (sortCalls st) in
      case find (slotFits st day duration facultyId room) timesToTry of
        Some startIndex \<Rightarrow> Some startIndex
      | None \<Rightarrow> find (slotFits st day duration facultyId room) [0..<length timeSlots - duration])"

definition tick :: "gen_state \<Rightarrow> gen_state" where
  "tick st = st\<lparr>sortCalls := Suc (sortCalls st)\<rparr>"

text \<open>
  The classroom loop \<^verbatim>\<open>for (i = 0; i < rooms.length; i++)\<close>, shared by the three session
  types: it tries the rooms from \<open>roomIndex\<close> on, wrapping around, and returns the first room
  with a slot, the slot and the next value of the room index. Every call of
  \<^verbatim>\<open>findBestTimeSlot\<close> uses up one shuffle.
\<close>

fun tryRooms ::
  "rng \<Rightarrow> string \<Rightarrow> nat \<Rightarrow> string \<Rightarrow> classroom list \<Rightarrow> nat \<Rightarrow> nat list \<Rightarrow> gen_state \<Rightarrow>
   (classroom \<times> nat \<times> nat) option \<times> gen_state" where
  "tryRooms R day duration facultyId rooms roomIndex [] st = (None, st)"
| "tryRooms R day duration facultyId rooms roomIndex (i # rest) st =
     (let roomIndexToTry = (roomIndex + i) mod length rooms;
          room = rooms ! roomIndexToTry in
      case findBestTimeSlot R st day duration facultyId room of
        Some slot \<Rightarrow> (Some (room, slot, (roomIndexToTry + 1) mod length rooms), tick st)
      | None \<Rightarrow> tryRooms R day duration facultyId rooms roomIndex rest (tick st))"

definition findRoom ::
  "rng \<Rightarrow> string \<Rightarrow> nat \<Rightarrow> string \<Rightarrow> classroom list \<Rightarrow> nat \<Rightarrow> gen_state \<Rightarrow>
   (classroom \<times> nat \<times> nat) option \<times> gen_state" where
  "findRoom R day duration facultyId rooms roomIndex st =
     tryRooms R day duration facultyId rooms roomIndex [0..<length rooms] st"

section \<open>Choosing the faculty member\<close>

text \<open>
  \<^verbatim>\<open>facultySubjects.filter(fs => fs.subject_id === subject.id &&
  fs.subject_types?.includes(type))\<close>: a row whose \<^verbatim>\<open>subject_types\<close> is null does not qualify.
\<close>

definition qualifiedFaculty :: "string \<Rightarrow> faculty_subject list \<Rightarrow> subject_row \<Rightarrow> faculty_subject list" where
  "qualifiedFaculty ty fss subject =
     filter (\<lambda>fs. fs_subject_id fs = subj_id subject \<and>
                  (case fs_subject_types fs of None \<Rightarrow> False | Some tys \<Rightarrow> ty \<in> set tys)) fss"

text \<open>
  The callback of the \<^verbatim>\<open>reduce\<close>, and the \<^verbatim>\<open>reduce\<close> without an initial value on a
  non-empty array: it starts from the first row and folds the rest from the left.
\<close>

definition leastUsedStep :: "(string \<Rightarrow> nat) \<Rightarrow> faculty_subject \<Rightarrow> faculty_subject \<Rightarrow> faculty_subject" where
  "leastUsedStep usage leastUsed current =
     (let leastUsedCount = usage (fs_faculty_id leastUsed);
          currentCount = usage (fs_faculty_id current)
      in if currentCount < leastUsedCount then current else leastUsed)"

definition reduceLeastUsed :: "(string \<Rightarrow> nat) \<Rightarrow> faculty_subject \<Rightarrow> faculty_subject list \<Rightarrow> faculty_subject" where
  "reduceLeastUsed usage first rest = foldl (leastUsedStep usage) first rest"

section \<open>Phase 1: lectures\<close>

record inputs =
  sectionRow :: section_row
  subjects :: "subject_row list"
  facultySubjects :: "faculty_subject list"
  existingTimetable :: "entry list"
  lectureClassrooms :: "classroom list"
  labClassrooms :: "classroom list"
  tutorialClassrooms :: "classroom list"

text \<open>\<^verbatim>\<open>timeSlots[i] || '18:00'\<close>: reading past the array gives \<^verbatim>\<open>undefined\<close>.\<close>

definition endLabel :: "nat \<Rightarrow> string" where
  "endLabel i = (if i < length timeSlots then timeSlots ! i else ''18:00'')"

definition addUsage :: "string \<Rightarrow> nat \<Rightarrow> gen_state \<Rightarrow> gen_state" where
  "addUsage facultyId n st =
     st\<lparr>facultyUsageCount := (facultyUsageCount st)(facultyId := facultyUsageCount st facultyId + n)\<rparr>"

text \<open>The object literal \<^verbatim>\<open>entry\<close> of the lecture loop.\<close>

definition lectureEntry ::
  "string \<Rightarrow> subject_row \<Rightarrow> string \<Rightarrow> classroom \<Rightarrow> string \<Rightarrow> nat \<Rightarrow> entry" where
  "lectureEntry sectionId subject facultyId room day timeIndex =
     \<lparr>section_id = sectionId, subject_id = subj_id subject, faculty_id = facultyId,
      classroom_id = room_id room, day_of_week = day,
      start_time = timeSlots ! timeIndex, end_time = endLabel (timeIndex + 1),
      subject_type = ''lecture'', batch_number = None\<rparr>"

text \<open>
  What the lecture loop does once a room and a slot are found: push the entry, mark the
  cells, note the lecture of the day, count the hour for the subject and for the faculty
  member.
\<close>

definition commitLecture ::
  "string \<Rightarrow> subject_row \<Rightarrow> string \<Rightarrow> classroom \<Rightarrow> string \<Rightarrow> nat \<Rightarrow> gen_state \<Rightarrow> gen_state" where
  "commitLecture sectionId subject facultyId room day timeIndex st =
     (let e = lectureEntry sectionId subject facultyId room day timeIndex;
          st1 = st\<lparr>timetableEntries := timetableEntries st @ [e]\<rparr>;
          st2 = markSlotOccupied day timeIndex 1 facultyId (room_id room) e st1;
          st3 = st2\<lparr>dailySubjectLectures :=
                     (dailySubjectLectures st2)(day := insert (subj_id subject) (dailySubjectLectures st2 day)),
                   subjectWeeklyHours :=
                     (subjectWeeklyHours st2)(subj_id subject := subjectWeeklyHours st2 (subj_id subject) + 1)\<rparr>
      in addUsage facultyId 1 st3)"

text \<open>\<^verbatim>\<open>availableDays.splice(dayIndex, 1)\<close>.\<close>

definition splice1 :: "nat \<Rightarrow> 'a list \<Rightarrow> 'a list" where
  "splice1 i xs = take i xs @ drop (Suc i) xs"

text \<open>
  One pass through the body of \<^verbatim>\<open>while (hoursScheduled < weeklyHours &&
  availableDays.length > 0)\<close>: it either leaves the loop (\<^verbatim>\<open>break\<close>) or goes round again
  with new values of \<^verbatim>\<open>hoursScheduled\<close>, \<^verbatim>\<open>availableDays\<close> and the state.
\<close>

datatype lecture_loop = Break gen_state | Again nat "string list" gen_state

definition lectureStep ::
  "rng \<Rightarrow> classroom list \<Rightarrow> string \<Rightarrow> subject_row \<Rightarrow> string \<Rightarrow> nat \<Rightarrow> string list \<Rightarrow> gen_state \<Rightarrow> lecture_loop" where
  "lectureStep R rooms sectionId subject facultyId hoursScheduled availableDays st =
     (let dayIndex = hoursScheduled mod length availableDays;
          day = availableDays ! dayIndex
      in if subj_id subject \<in> dailySubjectLectures st day then
           (let remaining = splice1 dayIndex availableDays
            in if length remaining = 0 then Break st else Again hoursScheduled remaining st)
         else
           (case findRoom R day 1 facultyId rooms (lectureRoomIndex st) st of
              (None, st') \<Rightarrow>
                (let remaining = splice1 dayIndex availableDays
                 in if length remaining = 0 then Break st' else Again hoursScheduled remaining st')
            | (Some (room, timeIndex, nextRoomIndex), st') \<Rightarrow>
                (let st'' = commitLecture sectionId subject facultyId room day timeIndex
                              (st'\<lparr>lectureRoomIndex := nextRoomIndex\<rparr>);
                     remaining = splice1 dayIndex availableDays
                 in Again (Suc hoursScheduled)
                      (if length remaining = 0 \<and> int (Suc hoursScheduled) < weekly_hours subject
                       then remaining @
                            filter (\<lambda>d. subj_id subject \<notin> dailySubjectLectures st'' d) (shuffledDays R)
                       else remaining)
                      st'')))"

lemma length_splice1: "i < length xs \<Longrightarrow> length (splice1 i xs) < length xs"
  by (simp add: splice1_def)

lemma lectureStep_Again:
  assumes "lectureStep R rooms sectionId subject facultyId hs ad st = Again hs' ad' st'"
    and "ad \<noteq> []"
  shows "hs' = Suc hs \<or> (hs' = hs \<and> length ad' < length ad)"
proof -
  have "hs mod length ad < length ad" using assms(2) by simp
  then have "length (splice1 (hs mod length ad) ad) < length ad" by (rule length_splice1)
  with assms(1) show ?thesis
    by (auto simp: lectureStep_def Let_def split: if_splits prod.splits option.splits)
qed

function lectureLoop ::
  "rng \<Rightarrow> classroom list \<Rightarrow> string \<Rightarrow> subject_row \<Rightarrow> string \<Rightarrow> nat \<Rightarrow> string list \<Rightarrow> gen_state \<Rightarrow> gen_state" where
  "lectureLoop R rooms sectionId subject facultyId hoursScheduled availableDays st =
     (if int hoursScheduled < weekly_hours subject \<and> length availableDays > 0 then
        (case lectureStep R rooms sectionId subject facultyId hoursScheduled availableDays st of
           Break st' \<Rightarrow> st'
         | Again hoursScheduled' availableDays' st' \<Rightarrow>
             lectureLoop R rooms sectionId subject facultyId hoursScheduled' availableDays' st')
      else st)"
  by pat_completeness auto
termination
proof (relation "inv_image (less_than <*lex*> less_than)
    (\<lambda>(R, rooms, sectionId, subject, facultyId, hs, ad, st). (nat (weekly_hours subject - int hs), length ad))")
  show "wf (inv_image (less_than <*lex*> less_than)
    (\<lambda>(R, rooms, sectionId, subject, facultyId, hs, ad, st). (nat (weekly_hours subject - int hs), length ad)))"
    by (intro wf_inv_image wf_lex_prod wf_less_than)
next
  fix R rooms sectionId subject facultyId hs ad st hs' ad' st'
  assume run: "int hs < weekly_hours subject \<and> 0 < length ad"
    and step: "lectureStep R rooms sectionId subject facultyId hs ad st = Again hs' ad' st'"
  from run have "ad \<noteq> []" by auto
  from lectureStep_Again [OF step this] run
  show "((R, rooms, sectionId, subject, facultyId, hs', ad', st'),
         (R, rooms, sectionId, subject, facultyId, hs, ad, st))
        \<in> inv_image (less_than <*lex*> less_than)
            (\<lambda>(R, rooms, sectionId, subject, facultyId, hs, ad, st). (nat (weekly_hours subject - int hs), length ad))"
    by auto
qed

declare lectureLoop.simps [simp del]

text \<open>The body of the first \<^verbatim>\<open>for (const subject of subjects)\<close>.\<close>

definition scheduleLectures :: "rng \<Rightarrow> inputs \<Rightarrow> string \<Rightarrow> subject_row \<Rightarrow> gen_state \<Rightarrow> gen_state" where
  "scheduleLectures R C sectionId subject st =
     (case qualifiedFaculty ''lecture'' (facultySubjects C) subject of
        [] \<Rightarrow> st
      | q # qs \<Rightarrow>
          (let lectureFaculty = reduceLeastUsed (facultyUsageCount st) q qs
           in lectureLoop R (lectureClassrooms C) sectionId subject (fs_faculty_id lectureFaculty) 0
                (shuffledDays R) st))"

section \<open>Phase 2: labs and tutorials\<close>

text \<open>The decimal digits of a number, as a template literal prints it.\<close>

fun showNat :: "nat \<Rightarrow> string" where
  "showNat n = (if n < 10 then [char_of (48 + n)] else showNat (n div 10) @ [char_of (48 + n mod 10)])"

declare showNat.simps [simp del]

definition numberOfBatches :: nat where
  "numberOfBatches = 3"

definition batches :: "inputs \<Rightarrow> batch list" where
  "batches C =
     map (\<lambda>i. \<lparr>number = i + 1, batch_name = sec_name (sectionRow C) @ showNat (i + 1)\<rparr>)
       [0..<numberOfBatches]"

text \<open>
  The lab block and the tutorial block of the second loop are the same code up to the session
  type, the duration, the classroom list (\<open>rooms\<close> below), the room index they rotate and
  the hours they add to the faculty member's count.
\<close>

datatype batch_kind = LabKind | TutorialKind

fun kindType :: "batch_kind \<Rightarrow> string" where
  "kindType LabKind = ''lab''"
| "kindType TutorialKind = ''tutorial''"

fun kindDuration :: "batch_kind \<Rightarrow> nat" where
  "kindDuration LabKind = 2"
| "kindDuration TutorialKind = 1"

fun kindRooms :: "inputs \<Rightarrow> batch_kind \<Rightarrow> classroom list" where
  "kindRooms C LabKind = labClassrooms C"
| "kindRooms C TutorialKind = tutorialClassrooms C"

fun kindRoomIndex :: "batch_kind \<Rightarrow> gen_state \<Rightarrow> nat" where
  "kindRoomIndex LabKind st = labRoomIndex st"
| "kindRoomIndex TutorialKind st = tutorialRoomIndex st"

fun setKindRoomIndex :: "batch_kind \<Rightarrow> nat \<Rightarrow> gen_state \<Rightarrow> gen_state" where
  "setKindRoomIndex LabKind n st = st\<lparr>labRoomIndex := n\<rparr>"
| "setKindRoomIndex TutorialKind n st = st\<lparr>tutorialRoomIndex := n\<rparr>"

text \<open>The object literal \<^verbatim>\<open>entry\<close> of the lab loop and of the tutorial loop.\<close>

definition batchEntry ::
  "string \<Rightarrow> subject_row \<Rightarrow> batch_kind \<Rightarrow> string \<Rightarrow> classroom \<Rightarrow> string \<Rightarrow> nat \<Rightarrow> batch \<Rightarrow> entry" where
  "batchEntry sectionId subject k facultyId room day timeIndex b =
     \<lparr>section_id = sectionId, subject_id = subj_id subject, faculty_id = facultyId,
      classroom_id = room_id room, day_of_week = day,
      start_time = timeSlots ! timeIndex, end_time = endLabel (timeIndex + kindDuration k),
      subject_type = kindType k, batch_number = Some (number b)\<rparr>"

definition commitBatch ::
  "string \<Rightarrow> subject_row \<Rightarrow> batch_kind \<Rightarrow> string \<Rightarrow> classroom \<Rightarrow> string \<Rightarrow> nat \<Rightarrow> batch \<Rightarrow>
   gen_state \<Rightarrow> gen_state" where
  "commitBatch sectionId subject k facultyId room day timeIndex b st =
     (let e = batchEntry sectionId subject k facultyId room day timeIndex b;
          st1 = st\<lparr>timetableEntries := timetableEntries st @ [e]\<rparr>;
          st2 = markSlotOccupied day timeIndex (kindDuration k) facultyId (room_id room) e st1
      in addUsage facultyId (kindDuration k) st2)"

text \<open>
  \<^verbatim>\<open>for (const day of shuffledDays) { if (scheduled) break; ... }\<close> for one batch: the first
  day with a room and a slot gets the session, and the loop stops there.
\<close>

fun tryDays ::
  "rng \<Rightarrow> classroom list \<Rightarrow> string \<Rightarrow> subject_row \<Rightarrow> batch_kind \<Rightarrow> string \<Rightarrow> batch \<Rightarrow> string list \<Rightarrow>
   gen_state \<Rightarrow> gen_state" where
  "tryDays R rooms sectionId subject k facultyId b [] st = st"
| "tryDays R rooms sectionId subject k facultyId b (day # days) st =
     (case findRoom R day (kindDuration k) facultyId rooms (kindRoomIndex k st) st of
        (None, st') \<Rightarrow> tryDays R rooms sectionId subject k facultyId b days st'
      | (Some (room, timeIndex, nextRoomIndex), st') \<Rightarrow>
          commitBatch sectionId subject k facultyId room day timeIndex b
            (setKindRoomIndex k nextRoomIndex st'))"

text \<open>\<^verbatim>\<open>for (const batch of shuffledBatches)\<close>.\<close>

fun forBatches ::
  "rng \<Rightarrow> classroom list \<Rightarrow> string \<Rightarrow> subject_row \<Rightarrow> batch_kind \<Rightarrow> string \<Rightarrow> batch list \<Rightarrow>
   gen_state \<Rightarrow> gen_state" where
  "forBatches R rooms sectionId subject k facultyId [] st = st"
| "forBatches R rooms sectionId subject k facultyId (b # bs) st =
     forBatches R rooms sectionId subject k facultyId bs
       (tryDays R rooms sectionId subject k facultyId b (shuffledDays R) st)"

definition scheduleBatches ::
  "rng \<Rightarrow> inputs \<Rightarrow> string \<Rightarrow> subject_row \<Rightarrow> batch_kind \<Rightarrow> gen_state \<Rightarrow> gen_state" where
  "scheduleBatches R C sectionId subject k st =
     (case qualifiedFaculty (kindType k) (facultySubjects C) subject of
        [] \<Rightarrow> st
      | q # qs \<Rightarrow>
          (let faculty = reduceLeastUsed (facultyUsageCount st) q qs;
               shuffledBatches = sortBatches R (sortCalls st) (batches C)
           in forBatches R (kindRooms C k) sectionId subject k (fs_faculty_id faculty) shuffledBatches
                (tick st)))"

text \<open>The body of the second \<^verbatim>\<open>for (const subject of subjects)\<close>.\<close>

definition scheduleLabsAndTutorials ::
  "rng \<Rightarrow> inputs \<Rightarrow> string \<Rightarrow> subject_row \<Rightarrow> gen_state \<Rightarrow> gen_state" where
  "scheduleLabsAndTutorials R C sectionId subject st =
     (let st1 = (if has_lab subject then scheduleBatches R C sectionId subject LabKind st else st)
      in if has_tutorial subject then scheduleBatches R C sectionId subject TutorialKind st1 else st1)"

section \<open>The generation run\<close>

text \<open>
  The computation of \<^verbatim>\<open>mutationFn\<close> between the reads and the insert: seed the grid from the
  other sections' entries, schedule the lectures of every subject, then the labs and tutorials
  of every subject; the result is \<^verbatim>\<open>timetableEntries\<close>.
\<close>

definition seededState :: "inputs \<Rightarrow> gen_state" where
  "seededState C = fold seedEntry (existingTimetable C) initialState"

definition finalState :: "rng \<Rightarrow> inputs \<Rightarrow> string \<Rightarrow> gen_state" where
  "finalState R C sectionId =
     fold (scheduleLabsAndTutorials R C sectionId) (subjects C)
       (fold (scheduleLectures R C sectionId) (subjects C) (seededState C))"

definition generate :: "rng \<Rightarrow> inputs \<Rightarrow> string \<Rightarrow> entry list" where
  "generate R C sectionId = timetableEntries (finalState R C sectionId)"

section \<open>The mutation function around the run\<close>

text \<open>
  \<^verbatim>\<open>mutationFn\<close> talks to the store through the Supabase client. A call returns
  \<^verbatim>\<open>{ data, error }\<close> and never throws; the code throws the error itself where it tests it.
  The store is the five tables; \<open>faults\<close> says which of the calls of one run come back with an
  error. A failed call leaves the store as it was.
\<close>

datatype error = PostgrestError string

record store =
  sectionsTable :: "section_row list"
  subjectsTable :: "subject_row list"
  facultySubjectsTable :: "faculty_subject list"
  classroomsTable :: "classroom list"
  timetableTable :: "entry list"

record faults =
  deleteError :: "error option"
  sectionError :: "error option"
  subjectsError :: "error option"
  fsError :: "error option"
  existingError :: "error option"
  lectureRoomsError :: "error option"
  labRoomsError :: "error option"
  tutorialRoomsError :: "error option"
  insertError :: "error option"

text \<open>\<^verbatim>\<open>.select(...)\<close> with a filter: the rows, or the error of the call.\<close>

definition selectRows :: "error option \<Rightarrow> 'a list \<Rightarrow> error + 'a list" where
  "selectRows err rows = (case err of Some e \<Rightarrow> Inl e | None \<Rightarrow> Inr rows)"

text \<open>\<^verbatim>\<open>.single()\<close>: an error unless the result has exactly one row.\<close>

definition single :: "error + 'a list \<Rightarrow> error + 'a" where
  "single res =
     (case res of
        Inl e \<Rightarrow> Inl e
      | Inr [row] \<Rightarrow> Inr row
      | Inr _ \<Rightarrow> Inl (PostgrestError ''PGRST116''))"

text \<open>
  \<^verbatim>\<open>await supabase.from('timetable').delete().eq('section_id', sectionId)\<close>; the result of the
  call is not looked at.
\<close>

definition deleteSection :: "faults \<Rightarrow> string \<Rightarrow> store \<Rightarrow> store" where
  "deleteSection F sectionId db =
     (case deleteError F of
        Some e \<Rightarrow> db
      | None \<Rightarrow> db\<lparr>timetableTable := [e \<leftarrow> timetableTable db. section_id e \<noteq> sectionId]\<rparr>)"

text \<open>\<^verbatim>\<open>lectureRoomsError || labRoomsError || tutorialRoomsError\<close>.\<close>

definition firstError :: "error option \<Rightarrow> error option \<Rightarrow> error option \<Rightarrow> error option" where
  "firstError a b c = (case a of Some e \<Rightarrow> Some e | None \<Rightarrow> (case b of Some e \<Rightarrow> Some e | None \<Rightarrow> c))"

text \<open>The classroom rows of one room type; \<^verbatim>\<open>raw || []\<close> turns the \<^verbatim>\<open>null\<close> data of a failed call into the empty list.\<close>

definition roomsOfType :: "store \<Rightarrow> string \<Rightarrow> classroom list" where
  "roomsOfType db ty = [c \<leftarrow> classroomsTable db. room_type c = ty]"

text \<open>
  The steps of \<^verbatim>\<open>mutationFn\<close> in the order of the source: delete the section's entries, read
  the section, the subjects of its year level, the faculty-subject rows, the entries of the
  other sections, the three classroom lists, run the generator, insert the entries if there
  are any. The value is what the promise settles with (\<open>Inl\<close>: it rejects with the error) and
  the store afterwards.
\<close>

definition mutationFn :: "rng \<Rightarrow> faults \<Rightarrow> store \<Rightarrow> string \<Rightarrow> (error + entry list) \<times> store" where
  "mutationFn R F db0 sectionId =
     (let db = deleteSection F sectionId db0 in
      case single (selectRows (sectionError F) [s \<leftarrow> sectionsTable db. sec_id s = sectionId]) of
        Inl e \<Rightarrow> (Inl e, db)
      | Inr sectionR \<Rightarrow>
     (case selectRows (subjectsError F)
             [s \<leftarrow> subjectsTable db. subj_year_level s = sec_year_level sectionR] of
        Inl e \<Rightarrow> (Inl e, db)
      | Inr subjectsR \<Rightarrow>
     (case selectRows (fsError F) (facultySubjectsTable db) of
        Inl e \<Rightarrow> (Inl e, db)
      | Inr facultySubjectsR \<Rightarrow>
     (case selectRows (existingError F) [e \<leftarrow> timetableTable db. section_id e \<noteq> sectionId] of
        Inl e \<Rightarrow> (Inl e, db)
      | Inr existingR \<Rightarrow>
     (case firstError (lectureRoomsError F) (labRoomsError F) (tutorialRoomsError F) of
        Some e \<Rightarrow> (Inl e, db)
      | None \<Rightarrow>
          (let C = \<lparr>sectionRow = sectionR, subjects = subjectsR,
                    facultySubjects = facultySubjectsR, existingTimetable = existingR,
                    lectureClassrooms = roomsOfType db ''lecture'',
                    labClassrooms = roomsOfType db ''lab'',
                    tutorialClassrooms = roomsOfType db ''tutorial''\<rparr>;
               timetableEntries = generate R C sectionId
           in if length timetableEntries > 0 then
                (case insertError F of
                   Some e \<Rightarrow> (Inl e, db)
                 | None \<Rightarrow>
                     (Inr timetableEntries,
                      db\<lparr>timetableTable := timetableTable db @ timetableEntries\<rparr>))
              else (Inr timetableEntries, db)))))))"


definition noFaults :: faults where
  "noFaults =
     \<lparr>deleteError = None, sectionError = None, subjectsError = None, fsError = None,
      existingError = None, lectureRoomsError = None, labRoomsError = None,
      tutorialRoomsError = None, insertError = None\<rparr>"

section \<open>Reading the generated entries\<close>

text \<open>
  The generator writes a session as a start label and an end label. The labels are the ten
  slot labels and \<^verbatim>\<open>'18:00'\<close>, the boundary after the last slot; \<open>slotsOf\<close> reads an entry
  back as the half-open interval \<open>[s, t)\<close> of slot indices it occupies.
\<close>

definition boundaryLabels :: "string list" where
  "boundaryLabels = timeSlots @ [''18:00'']"

definition boundaryIndex :: "string \<Rightarrow> nat option" where
  "boundaryIndex label = indexOf boundaryLabels label"

definition slotsOf :: "entry \<Rightarrow> (nat \<times> nat) option" where
  "slotsOf e =
     (case (boundaryIndex (start_time e), boundaryIndex (end_time e)) of
        (Some s, Some t) \<Rightarrow> Some (s, t)
      | _ \<Rightarrow> None)"

text \<open>
  A time of day \<^verbatim>\<open>HH:MM\<close> or \<^verbatim>\<open>HH:MM:SS\<close> in minutes after midnight, and the overlap of two
  entries: same day and intersecting half-open intervals \<open>[start, end)\<close>.
\<close>

definition digitOf :: "char \<Rightarrow> nat" where
  "digitOf c = of_char c - 48"

definition minutesOf :: "string \<Rightarrow> nat" where
  "minutesOf t =
     60 * (10 * digitOf (t ! 0) + digitOf (t ! 1)) + (10 * digitOf (t ! 3) + digitOf (t ! 4))"

definition overlaps :: "entry \<Rightarrow> entry \<Rightarrow> bool" where
  "overlaps e1 e2 \<longleftrightarrow>
     day_of_week e1 = day_of_week e2 \<and>
     minutesOf (start_time e1) < minutesOf (end_time e2) \<and>
     minutesOf (start_time e2) < minutesOf (end_time e1)"

text \<open>The conditions of \<^verbatim>\<open>findBestTimeSlot\<close> on a start index that do not depend on the grid.\<close>

definition fitsGrid :: "nat \<Rightarrow> nat \<Rightarrow> bool" where
  "fitsGrid timeIndex duration \<longleftrightarrow>
     timeIndex + duration \<le> length timeSlots \<and>
     \<not> (timeIndex \<le> BREAK_START \<and> BREAK_START < timeIndex + duration)"

definition avoidsBreak :: "entry \<Rightarrow> bool" where
  "avoidsBreak e =
     (case slotsOf e of
        Some (s, t) \<Rightarrow> s < t \<and> t \<le> length timeSlots \<and> (BREAK_START < s \<or> t \<le> BREAK_START)
      | None \<Rightarrow> False)"

definition durationLaw :: "entry \<Rightarrow> bool" where
  "durationLaw e =
     (case slotsOf e of
        Some (s, t) \<Rightarrow>
          (subject_type e = ''lab'' \<and> t = s + 2) \<or>
          ((subject_type e = ''lecture'' \<or> subject_type e = ''tutorial'') \<and> t = s + 1)
      | None \<Rightarrow> False)"

definition batchTagged :: "entry \<Rightarrow> bool" where
  "batchTagged e \<longleftrightarrow>
     (subject_type e = ''lecture'' \<longrightarrow> batch_number e = None) \<and>
     (subject_type e = ''lab'' \<or> subject_type e = ''tutorial'' \<longrightarrow>
        batch_number e = Some 1 \<or> batch_number e = Some 2 \<or> batch_number e = Some 3)"

text \<open>The (subject, day) pairs of the lecture entries of a list, in order.\<close>

definition lectureKeys :: "entry list \<Rightarrow> (string \<times> string) list" where
  "lectureKeys es =
     map (\<lambda>e. (subject_id e, day_of_week e)) (filter (\<lambda>e. subject_type e = ''lecture'') es)"

text \<open>
  An entry occupies the section's own grid in a state when every cell of its interval is
  non-null in \<^verbatim>\<open>schedule\<close>.
\<close>

definition occupies :: "gen_state \<Rightarrow> entry \<Rightarrow> bool" where
  "occupies st e \<longleftrightarrow>
     (\<exists>s t. s < t \<and> t \<le> 10 \<and>
        minutesOf (start_time e) = 480 + 60 * s \<and> minutesOf (end_time e) = 480 + 60 * t \<and>
        (\<forall>j. s \<le> j \<and> j < t \<longrightarrow> schedule st (day_of_week e) j \<noteq> None))"

text \<open>
  The hours of an entry, and the hours of the entries of a list that a faculty member
  teaches: the load of the faculty member in a run.
\<close>

definition hoursOf :: "entry \<Rightarrow> nat" where
  "hoursOf e = (case slotsOf e of Some (s, t) \<Rightarrow> t - s | None \<Rightarrow> 0)"

definition assignedHours :: "entry list \<Rightarrow> string \<Rightarrow> nat" where
  "assignedHours es f = sum_list (map hoursOf (filter (\<lambda>e. faculty_id e = f) es))"

text \<open>
  \<open>chosen\<close> is the first row of \<open>qualified\<close> with the least load: every row before it has a
  larger load, no row after it a smaller one.
\<close>

definition leastLoadedFirst ::
  "(faculty_subject \<Rightarrow> nat) \<Rightarrow> faculty_subject list \<Rightarrow> faculty_subject \<Rightarrow> bool" where
  "leastLoadedFirst load qualified chosen \<longleftrightarrow>
     (\<exists>pre post. qualified = pre @ chosen # post \<and>
        (\<forall>r \<in> set pre. load chosen < load r) \<and> (\<forall>r \<in> set post. load chosen \<le> load r))"

text \<open>
  Two random sources produce the same orders in a run on given inputs: the same day order, the
  same start-slot order at every shuffle, the same batch order at every shuffle.
\<close>

definition sameOrders :: "inputs \<Rightarrow> rng \<Rightarrow> rng \<Rightarrow> bool" where
  "sameOrders C R1 R2 \<longleftrightarrow>
     shuffledDays R1 = shuffledDays R2 \<and>
     (\<forall>k. getRandomStartTimes R1 k = getRandomStartTimes R2 k) \<and>
     (\<forall>k. sortBatches R1 k (batches C) = sortBatches R2 k (batches C))"

text \<open>
  An existing entry is marked in a state when, if both its labels are slot labels, its faculty
  member and its classroom are in the busy sets of every cell from its start to its end.
\<close>

definition busyIn :: "gen_state \<Rightarrow> entry \<Rightarrow> bool" where
  "busyIn st x \<longleftrightarrow>
     (\<forall>s t j. getTimeIndex (take 5 (start_time x)) = Some s \<and>
              getTimeIndex (take 5 (end_time x)) = Some t \<and> s \<le> j \<and> j < t \<longrightarrow>
        faculty_id x \<in> facultySchedule st (day_of_week x) j \<and>
        classroom_id x \<in> classroomSchedule st (day_of_week x) j)"

text \<open>
  The entries of a list all belong to one subject, one session type and one faculty member.
\<close>

definition inBlock :: "string \<Rightarrow> string \<Rightarrow> string \<Rightarrow> entry list \<Rightarrow> bool" where
  "inBlock subjectId ty facultyId xs \<longleftrightarrow>
     (\<forall>x \<in> set xs. subject_id x = subjectId \<and> subject_type x = ty \<and> faculty_id x = facultyId)"

text \<open>
  The faculty member of the entry at position \<open>i\<close> of a generated list is the chosen one:
  there is a position \<open>n\<close> up to \<open>i\<close> such that the entries from \<open>n\<close> to \<open>i\<close> all have the
  subject and session type of entry \<open>i\<close>, and the faculty member of entry \<open>i\<close> is the one the
  \<^verbatim>\<open>reduce\<close> returns on the rows qualified for that subject and session type when the load
  of a faculty member is the hours of the first \<open>n\<close> entries of the list; that row is the
  first of the qualified rows with the least load.
\<close>

definition chosenLeastLoaded :: "inputs \<Rightarrow> entry list \<Rightarrow> nat \<Rightarrow> bool" where
  "chosenLeastLoaded C es i \<longleftrightarrow>
     (\<exists>n subject q qs.
        n \<le> i \<and>
        (\<forall>m. n \<le> m \<and> m < i \<longrightarrow>
           subject_id (es ! m) = subject_id (es ! i) \<and> subject_type (es ! m) = subject_type (es ! i)) \<and>
        subj_id subject = subject_id (es ! i) \<and>
        qualifiedFaculty (subject_type (es ! i)) (facultySubjects C) subject = q # qs \<and>
        faculty_id (es ! i) = fs_faculty_id (reduceLeastUsed (assignedHours (take n es)) q qs) \<and>
        leastLoadedFirst (\<lambda>r. assignedHours (take n es) (fs_faculty_id r)) (q # qs)
          (reduceLeastUsed (assignedHours (take n es)) q qs))"

text \<open>Every entry generated so far in a state has the chosen faculty member.\<close>

definition chosenAll :: "inputs \<Rightarrow> gen_state \<Rightarrow> bool" where
  "chosenAll C st \<longleftrightarrow> (\<forall>i < length (timetableEntries st). chosenLeastLoaded C (timetableEntries st) i)"

section \<open>The states a run passes through\<close>

text \<open>
  The state of a run changes in four ways only: it starts seeded, a shuffle is counted, a
  lecture is committed on a slot that \<^verbatim>\<open>findBestTimeSlot\<close> accepted for a subject without a
  lecture that day, or a batch session is committed on an accepted slot for a batch of a
  shuffled batch list. \<open>finalState_reachable\<close> below shows that the run stays within these.
\<close>

inductive reachable :: "rng \<Rightarrow> inputs \<Rightarrow> string \<Rightarrow> gen_state \<Rightarrow> bool"
  for R :: rng and C :: inputs and sectionId :: string where
  seeded: "reachable R C sectionId (seededState C)"
| ticked: "reachable R C sectionId st \<Longrightarrow> reachable R C sectionId (tick st)"
| lecture:
    "reachable R C sectionId st \<Longrightarrow> slotFits st day 1 facultyId room timeIndex \<Longrightarrow>
     subj_id subject \<notin> dailySubjectLectures st day \<Longrightarrow>
     reachable R C sectionId
       (commitLecture sectionId subject facultyId room day timeIndex (st\<lparr>lectureRoomIndex := n\<rparr>))"
| session:
    "reachable R C sectionId st \<Longrightarrow> slotFits st day (kindDuration k) facultyId room timeIndex \<Longrightarrow>
     b \<in> set (sortBatches R j (batches C)) \<Longrightarrow>
     reachable R C sectionId
       (commitBatch sectionId subject k facultyId room day timeIndex b (setKindRoomIndex k n st))"


section \<open>Example inputs\<close>

text \<open>
  One subject with two weekly hours and a lab, one faculty member qualified for both, one
  lecture room and one lab room, no entries of other sections. \<open>keepOrder\<close> is the random
  source whose sorts leave every list as it is, \<open>reverseOrder\<close> the one whose sorts reverse it.
\<close>

definition keepOrder :: rng where
  "keepOrder = \<lparr>sortDays = (\<lambda>xs. xs), sortTimes = (\<lambda>k xs. xs), sortBatches = (\<lambda>k xs. xs)\<rparr>"

definition reverseOrder :: rng where
  "reverseOrder = \<lparr>sortDays = rev, sortTimes = (\<lambda>k. rev), sortBatches = (\<lambda>k. rev)\<rparr>"

definition exampleInputs :: inputs where
  "exampleInputs =
     \<lparr>sectionRow = \<lparr>sec_id = ''s'', sec_name = ''A'', sec_year_level = ''FY''\<rparr>,
      subjects = [\<lparr>subj_id = ''m'', subj_year_level = ''FY'', weekly_hours = 2,
                   has_lab = True, has_tutorial = False\<rparr>],
      facultySubjects = [\<lparr>fs_faculty_id = ''f'', fs_subject_id = ''m'',
                          fs_subject_types = Some [''lecture'', ''lab'']\<rparr>],
      existingTimetable = [],
      lectureClassrooms = [\<lparr>room_id = ''r'', room_type = ''lecture''\<rparr>],
      labClassrooms = [\<lparr>room_id = ''l'', room_type = ''lab''\<rparr>],
      tutorialClassrooms = []\<rparr>"

definition mkEntry ::
  "string \<Rightarrow> string \<Rightarrow> string \<Rightarrow> string \<Rightarrow> string \<Rightarrow> string \<Rightarrow> string \<Rightarrow> string \<Rightarrow> nat option \<Rightarrow> entry" where
  "mkEntry sec subj fac room day t1 t2 ty b =
     \<lparr>section_id = sec, subject_id = subj, faculty_id = fac, classroom_id = room,
      day_of_week = day, start_time = t1, end_time = t2, subject_type = ty,
      batch_number = b\<rparr>"

text \<open>
  An entry of another section as the store returns it: a lecture on Monday from 17:00 to
  18:00, which is what the generator itself writes for a lecture in the last slot.
\<close>

definition lateEntry :: entry where
  "lateEntry = mkEntry ''o'' ''m'' ''f'' ''r'' ''Monday'' ''17:00:00'' ''18:00:00'' ''lecture'' None"

text \<open>Two faculty members qualified for the lectures of one subject with one weekly hour.\<close>

definition rowA :: faculty_subject where
  "rowA = \<lparr>fs_faculty_id = ''a'', fs_subject_id = ''m'', fs_subject_types = Some [''lecture'']\<rparr>"

definition rowB :: faculty_subject where
  "rowB = \<lparr>fs_faculty_id = ''b'', fs_subject_id = ''m'', fs_subject_types = Some [''lecture'']\<rparr>"

definition oneHour :: subject_row where
  "oneHour = \<lparr>subj_id = ''m'', subj_year_level = ''FY'', weekly_hours = 1,
              has_lab = False, has_tutorial = False\<rparr>"

definition tieInputs :: "faculty_subject list \<Rightarrow> inputs" where
  "tieInputs rows =
     \<lparr>sectionRow = \<lparr>sec_id = ''s'', sec_name = ''A'', sec_year_level = ''FY''\<rparr>,
      subjects = [oneHour],
      facultySubjects = rows,
      existingTimetable = [],
      lectureClassrooms = [\<lparr>room_id = ''r'', room_type = ''lecture''\<rparr>],
      labClassrooms = [],
      tutorialClassrooms = []\<rparr>"

text \<open>
  Faculty member \<open>f\<close> teaches in another section on Monday from 08:00 to 12:00, from 13:00 to
  17:00 and from 17:00 to 18:00, the last in room \<open>r\<close>; the target section has one subject with
  one weekly hour, for which only \<open>f\<close> is qualified, and \<open>r\<close> is the only lecture room.
\<close>

definition clashInputs :: inputs where
  "clashInputs =
     \<lparr>sectionRow = \<lparr>sec_id = ''s'', sec_name = ''A'', sec_year_level = ''FY''\<rparr>,
      subjects = [oneHour],
      facultySubjects = [\<lparr>fs_faculty_id = ''f'', fs_subject_id = ''m'',
                          fs_subject_types = Some [''lecture'']\<rparr>],
      existingTimetable =
        [mkEntry ''o'' ''m'' ''f'' ''q'' ''Monday'' ''08:00:00'' ''12:00:00'' ''lecture'' None,
         mkEntry ''o'' ''m'' ''f'' ''q'' ''Monday'' ''13:00:00'' ''17:00:00'' ''lecture'' None,
         lateEntry],
      lectureClassrooms = [\<lparr>room_id = ''r'', room_type = ''lecture''\<rparr>],
      labClassrooms = [],
      tutorialClassrooms = []\<rparr>"

text \<open>
  A store whose timetable holds one entry of section \<open>s\<close> and one of section \<open>o\<close>, and a run
  whose read of the section comes back with an error.
\<close>

definition oldEntry :: entry where
  "oldEntry = mkEntry ''s'' ''m'' ''f'' ''r'' ''Tuesday'' ''09:00:00'' ''10:00:00'' ''lecture'' None"

definition exampleStore :: store where
  "exampleStore =
     \<lparr>sectionsTable = [\<lparr>sec_id = ''s'', sec_name = ''A'', sec_year_level = ''FY''\<rparr>],
      subjectsTable = [oneHour],
      facultySubjectsTable = [rowA],
      classroomsTable = [\<lparr>room_id = ''r'', room_type = ''lecture''\<rparr>],
      timetableTable = [oldEntry, lateEntry]\<rparr>"


text \<open>
  A random source that sorts the day list, the start slots and the batch list as \<open>keepOrder\<close>
  does and reverses every other list.
\<close>

definition keepOrderHere :: "inputs \<Rightarrow> rng" where
  "keepOrderHere C =
     \<lparr>sortDays = (\<lambda>xs. if xs = daysOfWeek then xs else rev xs),
      sortTimes = (\<lambda>k xs. if xs = [0, 1, 2, 3, 5, 6, 7, 8, 9] then xs else rev xs),
      sortBatches = (\<lambda>k xs. if xs = batches C then xs else rev xs)\<rparr>"

text \<open>
  Two subjects with one weekly hour each; faculty member \<open>a\<close> alone is qualified for the
  lectures of \<open>m\<close>, and \<open>a\<close> and \<open>b\<close>, in this order of rows, for the lectures of \<open>n\<close>.
\<close>

definition rowAn :: faculty_subject where
  "rowAn = \<lparr>fs_faculty_id = ''a'', fs_subject_id = ''n'', fs_subject_types = Some [''lecture'']\<rparr>"

definition rowBn :: faculty_subject where
  "rowBn = \<lparr>fs_faculty_id = ''b'', fs_subject_id = ''n'', fs_subject_types = Some [''lecture'']\<rparr>"

definition loadInputs :: inputs where
  "loadInputs =
     \<lparr>sectionRow = \<lparr>sec_id = ''s'', sec_name = ''A'', sec_year_level = ''FY''\<rparr>,
      subjects = [oneHour, oneHour\<lparr>subj_id := ''n''\<rparr>],
      facultySubjects = [rowA, rowAn, rowBn],
      existingTimetable = [],
      lectureClassrooms = [\<lparr>room_id = ''r'', room_type = ''lecture''\<rparr>],
      labClassrooms = [],
      tutorialClassrooms = []\<rparr>"


section \<open>Labels, availability and the search\<close>

lemma indexOf_None: "indexOf xs x = None \<longleftrightarrow> x \<notin> set xs"
  by (induction xs) auto

lemma indexOf_Some: "indexOf xs x = Some i \<Longrightarrow> i < length xs \<and> xs ! i = x"
  by (induction xs arbitrary: i) (auto split: if_splits)

lemma le10_cases: "(i::nat) \<le> 10 \<Longrightarrow> i = 0 \<or> i = 1 \<or> i = 2 \<or> i = 3 \<or> i = 4 \<or> i = 5 \<or> i = 6 \<or> i = 7 \<or> i = 8 \<or> i = 9 \<or> i = 10"
  by arith

lemma boundaryLabels_nth:
  "i \<le> 10 \<Longrightarrow> boundaryIndex (boundaryLabels ! i) = Some i"
  by (drule le10_cases) (auto simp: boundaryIndex_def boundaryLabels_def timeSlots_def)

lemma boundaryLabels_minutes:
  "i \<le> 10 \<Longrightarrow> minutesOf (boundaryLabels ! i) = 480 + 60 * i"
  by (drule le10_cases) (auto simp: minutesOf_def digitOf_def boundaryLabels_def timeSlots_def)

lemma length_timeSlots [simp]: "length timeSlots = 10"
  by (simp add: timeSlots_def)

lemma timeSlots_boundary: "i < 10 \<Longrightarrow> timeSlots ! i = boundaryLabels ! i"
  by (simp add: boundaryLabels_def nth_append)

lemma endLabel_boundary: "i \<le> 10 \<Longrightarrow> endLabel i = boundaryLabels ! i"
  by (cases "i < 10") (simp_all add: endLabel_def boundaryLabels_def nth_append)

lemma tick_fields [simp]:
  "schedule (tick st) = schedule st"
  "facultySchedule (tick st) = facultySchedule st"
  "classroomSchedule (tick st) = classroomSchedule st"
  "timetableEntries (tick st) = timetableEntries st"
  "dailySubjectLectures (tick st) = dailySubjectLectures st"
  "facultyUsageCount (tick st) = facultyUsageCount st"
  by (simp_all add: tick_def)

lemma slotFits_tick [simp]: "slotFits (tick st) day d f room s = slotFits st day d f room s"
  by (simp add: slotFits_def isSlotAvailable_def isFacultyAvailable_def isClassroomAvailable_def)

lemma findBestTimeSlot_Some:
  "findBestTimeSlot R st day d f room = Some s \<Longrightarrow> slotFits st day d f room s"
  by (auto simp: findBestTimeSlot_def Let_def find_Some_iff split: option.splits)

lemma set_slotRange: "set (slotRange a b) = {j. a \<le> j \<and> j < b \<and> j < 10}"
  by (auto simp: slotRange_def)

lemma slotFits_bound: "slotFits st day d f room s \<Longrightarrow> s + d \<le> 10"
  by (simp add: slotFits_def isSlotAvailable_def Let_def)

lemma slotFits_free:
  "slotFits st day d f room s \<Longrightarrow> s \<le> j \<Longrightarrow> j < s + d \<Longrightarrow> schedule st day j = None"
  by (auto simp: slotFits_def isSlotAvailable_def Let_def list_all_iff set_slotRange)

lemma slotFits_faculty_free:
  "slotFits st day d f room s \<Longrightarrow> s \<le> j \<Longrightarrow> j < s + d \<Longrightarrow> f \<notin> facultySchedule st day j"
  by (auto simp: slotFits_def isSlotAvailable_def isFacultyAvailable_def Let_def list_all_iff set_slotRange)

lemma slotFits_room_free:
  "slotFits st day d f room s \<Longrightarrow> s \<le> j \<Longrightarrow> j < s + d \<Longrightarrow> room_id room \<notin> classroomSchedule st day j"
  by (auto simp: slotFits_def isSlotAvailable_def isClassroomAvailable_def Let_def list_all_iff set_slotRange)

lemma slotFits_break:
  "slotFits st day d f room s \<Longrightarrow> \<not> (s \<le> BREAK_START \<and> BREAK_START < s + d)"
  by (auto simp: slotFits_def spansBreak_def isBreakTime_def list_ex_iff)


section \<open>The run stays within the reachable states\<close>

lemma tryRooms_reachable:
  "reachable R C sectionId st \<Longrightarrow> tryRooms R day d f rooms ri offs st = (res, st') \<Longrightarrow>
   reachable R C sectionId st' \<and>
   (\<forall>room slot n. res = Some (room, slot, n) \<longrightarrow> slotFits st' day d f room slot)"
proof (induction offs arbitrary: st)
  case Nil
  then show ?case by simp
next
  case (Cons i offs)
  let ?room = "rooms ! ((ri + i) mod length rooms)"
  show ?case
  proof (cases "findBestTimeSlot R st day d f ?room")
    case None
    with Cons.prems(2) have "tryRooms R day d f rooms ri offs (tick st) = (res, st')"
      by (simp add: Let_def)
    with Cons.IH [OF reachable.ticked [OF Cons.prems(1)]] show ?thesis by blast
  next
    case (Some slot)
    with Cons.prems(2) have res: "res = Some (?room, slot, ((ri + i) mod length rooms + 1) mod length rooms)"
      and st': "st' = tick st"
      by (simp_all add: Let_def)
    from findBestTimeSlot_Some [OF Some] have "slotFits (tick st) day d f ?room slot" by simp
    with res st' reachable.ticked [OF Cons.prems(1)] show ?thesis by simp
  qed
qed

lemma findRoom_reachable:
  "reachable R C sectionId st \<Longrightarrow> findRoom R day d f rooms ri st = (res, st') \<Longrightarrow>
   reachable R C sectionId st' \<and>
   (\<forall>room slot n. res = Some (room, slot, n) \<longrightarrow> slotFits st' day d f room slot)"
  unfolding findRoom_def by (rule tryRooms_reachable)

lemma tryRooms_daily:
  "tryRooms R day d f rooms ri offs st = (res, st') \<Longrightarrow>
   dailySubjectLectures st' = dailySubjectLectures st"
  by (induction offs arbitrary: st) (auto simp: Let_def split: option.splits)

lemma slotFits_roomIndex [simp]:
  "slotFits (st\<lparr>lectureRoomIndex := n\<rparr>) = slotFits st"
  "slotFits (setKindRoomIndex k n st) = slotFits st"
  by (cases k; simp add: fun_eq_iff slotFits_def isSlotAvailable_def isFacultyAvailable_def isClassroomAvailable_def)+

lemma lectureStep_reachable:
  assumes "reachable R C sectionId st"
  shows "(lectureStep R rooms sectionId subject f hs ad st = Break st' \<longrightarrow> reachable R C sectionId st') \<and>
         (lectureStep R rooms sectionId subject f hs ad st = Again hs' ad' st' \<longrightarrow> reachable R C sectionId st')"
proof (cases "subj_id subject \<in> dailySubjectLectures st (ad ! (hs mod length ad))")
  case True
  with assms show ?thesis by (auto simp: lectureStep_def Let_def)
next
  case False
  obtain res st1 where fr: "findRoom R (ad ! (hs mod length ad)) 1 f rooms (lectureRoomIndex st) st = (res, st1)"
    by (cases "findRoom R (ad ! (hs mod length ad)) 1 f rooms (lectureRoomIndex st) st")
  from findRoom_reachable [OF assms fr]
  have r1: "reachable R C sectionId st1"
    and fits: "\<And>room slot n. res = Some (room, slot, n) \<Longrightarrow> slotFits st1 (ad ! (hs mod length ad)) 1 f room slot"
    by blast+
  from fr have daily: "dailySubjectLectures st1 = dailySubjectLectures st"
    unfolding findRoom_def by (rule tryRooms_daily)
  show ?thesis
  proof (cases res)
    case None
    with False fr r1 show ?thesis by (auto simp: lectureStep_def Let_def)
  next
    case (Some t)
    obtain room slot n where t: "t = (room, slot, n)" by (cases t)
    have "reachable R C sectionId
            (commitLecture sectionId subject f room (ad ! (hs mod length ad)) slot (st1\<lparr>lectureRoomIndex := n\<rparr>))"
      using r1 fits [of room slot n] False daily Some t
      by (intro reachable.lecture) simp_all
    with False fr Some t show ?thesis by (auto simp: lectureStep_def Let_def)
  qed
qed

lemma lectureLoop_stop:
  "\<not> (int hs < weekly_hours subject \<and> 0 < length ad) \<Longrightarrow>
   lectureLoop R rooms sectionId subject f hs ad st = st"
  by (subst lectureLoop.simps) (rule if_not_P)

lemma lectureLoop_go:
  "int hs < weekly_hours subject \<and> 0 < length ad \<Longrightarrow>
   lectureLoop R rooms sectionId subject f hs ad st =
     (case lectureStep R rooms sectionId subject f hs ad st of
        Break st' \<Rightarrow> st'
      | Again hs' ad' st' \<Rightarrow> lectureLoop R rooms sectionId subject f hs' ad' st')"
  by (subst lectureLoop.simps) (rule if_P)

lemma lectureLoop_reachable:
  "reachable R C sectionId st \<Longrightarrow>
   reachable R C sectionId (lectureLoop R rooms sectionId subject f hs ad st)"
proof (induction R rooms sectionId subject f hs ad st rule: lectureLoop.induct)
  case (1 R rooms sectionId subject f hs ad st)
  show ?case
  proof (cases "int hs < weekly_hours subject \<and> 0 < length ad")
    case False
    from lectureLoop_stop [OF False] "1.prems" show ?thesis by simp
  next
    case True
    show ?thesis
    proof (cases "lectureStep R rooms sectionId subject f hs ad st")
      case (Break st')
      with lectureStep_reachable [OF "1.prems"] have "reachable R C sectionId st'" by blast
      with True Break show ?thesis by (simp add: lectureLoop_go)
    next
      case (Again hs' ad' st')
      with lectureStep_reachable [OF "1.prems"] have "reachable R C sectionId st'" by blast
      from "1.IH" [OF True Again this] True Again show ?thesis
        by (simp add: lectureLoop_go)
    qed
  qed
qed

lemma scheduleLectures_reachable:
  "reachable R C sectionId st \<Longrightarrow> reachable R C sectionId (scheduleLectures R C sectionId subject st)"
  by (auto simp: scheduleLectures_def Let_def lectureLoop_reachable split: list.splits)

lemma tryDays_reachable:
  "reachable R C sectionId st \<Longrightarrow> b \<in> set (sortBatches R j (batches C)) \<Longrightarrow>
   reachable R C sectionId (tryDays R rooms sectionId subject k f b days st)"
proof (induction days arbitrary: st)
  case Nil
  then show ?case by simp
next
  case (Cons day days)
  obtain res st1 where fr: "findRoom R day (kindDuration k) f rooms (kindRoomIndex k st) st = (res, st1)"
    by (cases "findRoom R day (kindDuration k) f rooms (kindRoomIndex k st) st")
  from findRoom_reachable [OF Cons.prems(1) fr]
  have r1: "reachable R C sectionId st1"
    and fits: "\<And>room slot n. res = Some (room, slot, n) \<Longrightarrow> slotFits st1 day (kindDuration k) f room slot"
    by blast+
  show ?case
  proof (cases res)
    case None
    with fr Cons.IH [OF r1 Cons.prems(2)] show ?thesis by simp
  next
    case (Some t)
    obtain room slot n where t: "t = (room, slot, n)" by (cases t)
    have "reachable R C sectionId
            (commitBatch sectionId subject k f room day slot b (setKindRoomIndex k n st1))"
      using r1 fits [of room slot n] Some t Cons.prems(2) by (intro reachable.session) simp_all
    with fr Some t show ?thesis by simp
  qed
qed

lemma forBatches_reachable:
  "reachable R C sectionId st \<Longrightarrow> set bs \<subseteq> set (sortBatches R j (batches C)) \<Longrightarrow>
   reachable R C sectionId (forBatches R rooms sectionId subject k f bs st)"
  by (induction bs arbitrary: st) (auto intro: tryDays_reachable)

lemma scheduleBatches_reachable:
  "reachable R C sectionId st \<Longrightarrow> reachable R C sectionId (scheduleBatches R C sectionId subject k st)"
  by (auto simp: scheduleBatches_def Let_def split: list.splits
      intro!: forBatches_reachable reachable.ticked)

lemma scheduleLabsAndTutorials_reachable:
  "reachable R C sectionId st \<Longrightarrow>
   reachable R C sectionId (scheduleLabsAndTutorials R C sectionId subject st)"
  by (simp add: scheduleLabsAndTutorials_def Let_def scheduleBatches_reachable)

lemma fold_reachable:
  "(\<And>x st. reachable R C sectionId st \<Longrightarrow> reachable R C sectionId (f x st)) \<Longrightarrow>
   reachable R C sectionId st \<Longrightarrow> reachable R C sectionId (fold f xs st)"
  by (induction xs arbitrary: st) simp_all

lemma finalState_reachable: "reachable R C sectionId (finalState R C sectionId)"
  unfolding finalState_def
  by (intro fold_reachable scheduleLabsAndTutorials_reachable scheduleLectures_reachable
      reachable.seeded)


subsection \<open>What the state updates do to each field\<close>

lemma fold_markCell_fields [simp]:
  "timetableEntries (fold (markCell day f c e) cells st) = timetableEntries st"
  "dailySubjectLectures (fold (markCell day f c e) cells st) = dailySubjectLectures st"
  "facultyUsageCount (fold (markCell day f c e) cells st) = facultyUsageCount st"
  by (induction cells arbitrary: st) (simp_all add: markCell_def)

lemma fold_markCell_schedule:
  "schedule (fold (markCell day f c e) cells st) d j =
     (if d = day \<and> j \<in> set cells then Some e else schedule st d j)"
  by (induction cells arbitrary: st) (auto simp: markCell_def)

lemma fold_seedCell_fields [simp]:
  "timetableEntries (fold (seedCell x) cells st) = timetableEntries st"
  "dailySubjectLectures (fold (seedCell x) cells st) = dailySubjectLectures st"
  "facultyUsageCount (fold (seedCell x) cells st) = facultyUsageCount st"
  "schedule (fold (seedCell x) cells st) = schedule st"
  by (induction cells arbitrary: st) (simp_all add: seedCell_def)

lemma seedEntry_fields [simp]:
  "timetableEntries (seedEntry x st) = timetableEntries st"
  "dailySubjectLectures (seedEntry x st) = dailySubjectLectures st"
  "facultyUsageCount (seedEntry x st) = facultyUsageCount st"
  "schedule (seedEntry x st) = schedule st"
  by (simp_all add: seedEntry_def Let_def split: option.splits)

lemma fold_seedEntry_fields [simp]:
  "timetableEntries (fold seedEntry xs st) = timetableEntries st"
  "dailySubjectLectures (fold seedEntry xs st) = dailySubjectLectures st"
  "facultyUsageCount (fold seedEntry xs st) = facultyUsageCount st"
  "schedule (fold seedEntry xs st) = schedule st"
  by (induction xs arbitrary: st) simp_all

lemma seededState_fields [simp]:
  "timetableEntries (seededState C) = []"
  "dailySubjectLectures (seededState C) = (\<lambda>day. {})"
  "facultyUsageCount (seededState C) = (\<lambda>f. 0)"
  "schedule (seededState C) = (\<lambda>day i. None)"
  by (simp_all add: seededState_def initialState_def)

lemma commitLecture_entries:
  "timetableEntries (commitLecture sectionId subject f room day ti st) =
     timetableEntries st @ [lectureEntry sectionId subject f room day ti]"
  by (simp add: commitLecture_def Let_def addUsage_def markSlotOccupied_def)

lemma commitLecture_schedule:
  "schedule (commitLecture sectionId subject f room day ti st) d j =
     (if d = day \<and> j = ti \<and> ti < 10 then Some (lectureEntry sectionId subject f room day ti)
      else schedule st d j)"
  by (auto simp: commitLecture_def Let_def addUsage_def markSlotOccupied_def
      fold_markCell_schedule set_slotRange)

lemma commitLecture_daily:
  "dailySubjectLectures (commitLecture sectionId subject f room day ti st) d =
     (if d = day then insert (subj_id subject) (dailySubjectLectures st d)
      else dailySubjectLectures st d)"
  by (simp add: commitLecture_def Let_def addUsage_def markSlotOccupied_def)

lemma commitLecture_usage:
  "facultyUsageCount (commitLecture sectionId subject f room day ti st) x =
     (if x = f then facultyUsageCount st x + 1 else facultyUsageCount st x)"
  by (simp add: commitLecture_def Let_def addUsage_def markSlotOccupied_def)

lemma commitBatch_entries:
  "timetableEntries (commitBatch sectionId subject k f room day ti b st) =
     timetableEntries st @ [batchEntry sectionId subject k f room day ti b]"
  by (simp add: commitBatch_def Let_def addUsage_def markSlotOccupied_def)

lemma commitBatch_schedule:
  "schedule (commitBatch sectionId subject k f room day ti b st) d j =
     (if d = day \<and> ti \<le> j \<and> j < ti + kindDuration k \<and> j < 10
      then Some (batchEntry sectionId subject k f room day ti b)
      else schedule st d j)"
  by (auto simp: commitBatch_def Let_def addUsage_def markSlotOccupied_def
      fold_markCell_schedule set_slotRange)

lemma commitBatch_daily:
  "dailySubjectLectures (commitBatch sectionId subject k f room day ti b st) =
     dailySubjectLectures st"
  by (simp add: commitBatch_def Let_def addUsage_def markSlotOccupied_def)

lemma commitBatch_usage:
  "facultyUsageCount (commitBatch sectionId subject k f room day ti b st) x =
     (if x = f then facultyUsageCount st x + kindDuration k else facultyUsageCount st x)"
  by (simp add: commitBatch_def Let_def addUsage_def markSlotOccupied_def)

lemma setKindRoomIndex_fields [simp]:
  "timetableEntries (setKindRoomIndex k n st) = timetableEntries st"
  "dailySubjectLectures (setKindRoomIndex k n st) = dailySubjectLectures st"
  "facultyUsageCount (setKindRoomIndex k n st) = facultyUsageCount st"
  "schedule (setKindRoomIndex k n st) = schedule st"
  by (cases k; simp)+

lemma lectureEntry_fields [simp]:
  "section_id (lectureEntry sectionId subject f room day ti) = sectionId"
  "subject_id (lectureEntry sectionId subject f room day ti) = subj_id subject"
  "faculty_id (lectureEntry sectionId subject f room day ti) = f"
  "classroom_id (lectureEntry sectionId subject f room day ti) = room_id room"
  "day_of_week (lectureEntry sectionId subject f room day ti) = day"
  "start_time (lectureEntry sectionId subject f room day ti) = timeSlots ! ti"
  "end_time (lectureEntry sectionId subject f room day ti) = endLabel (ti + 1)"
  "subject_type (lectureEntry sectionId subject f room day ti) = ''lecture''"
  "batch_number (lectureEntry sectionId subject f room day ti) = None"
  by (simp_all add: lectureEntry_def)

lemma batchEntry_fields [simp]:
  "section_id (batchEntry sectionId subject k f room day ti b) = sectionId"
  "subject_id (batchEntry sectionId subject k f room day ti b) = subj_id subject"
  "faculty_id (batchEntry sectionId subject k f room day ti b) = f"
  "classroom_id (batchEntry sectionId subject k f room day ti b) = room_id room"
  "day_of_week (batchEntry sectionId subject k f room day ti b) = day"
  "start_time (batchEntry sectionId subject k f room day ti b) = timeSlots ! ti"
  "end_time (batchEntry sectionId subject k f room day ti b) = endLabel (ti + kindDuration k)"
  "subject_type (batchEntry sectionId subject k f room day ti b) = kindType k"
  "batch_number (batchEntry sectionId subject k f room day ti b) = Some (number b)"
  by (simp_all add: batchEntry_def)

lemma slotFits_fitsGrid: "slotFits st day d f room s \<Longrightarrow> fitsGrid s d"
  using slotFits_bound [of st day d f room s] slotFits_break [of st day d f room s]
  by (simp add: fitsGrid_def)

subsection \<open>Every entry of a run is one of the two object literals\<close>

lemma reachable_entry:
  assumes "reachable R C sectionId st" and "e \<in> set (timetableEntries st)"
  shows "(\<exists>subject f room day ti. e = lectureEntry sectionId subject f room day ti \<and> fitsGrid ti 1) \<or>
         (\<exists>subject k f room day ti b j.
             e = batchEntry sectionId subject k f room day ti b \<and> fitsGrid ti (kindDuration k) \<and>
             b \<in> set (sortBatches R j (batches C)))"
  using assms
proof (induction rule: reachable.induct)
  case seeded
  then show ?case by simp
next
  case (ticked st)
  then show ?case by simp
next
  case (lecture st day facultyId room timeIndex subject n)
  from lecture.hyps(2) have "fitsGrid timeIndex 1" by (rule slotFits_fitsGrid)
  with lecture.prems lecture.IH show ?case
    by (auto simp: commitLecture_entries)
next
  case (session st day k facultyId room timeIndex b j subject n)
  from session.hyps(2) have "fitsGrid timeIndex (kindDuration k)" by (rule slotFits_fitsGrid)
  with session.prems session.IH session.hyps(3) show ?case
    by (auto simp: commitBatch_entries)
qed

lemma generate_entry:
  assumes "e \<in> set (generate R C sectionId)"
  shows "(\<exists>subject f room day ti. e = lectureEntry sectionId subject f room day ti \<and> fitsGrid ti 1) \<or>
         (\<exists>subject k f room day ti b j.
             e = batchEntry sectionId subject k f room day ti b \<and> fitsGrid ti (kindDuration k) \<and>
             b \<in> set (sortBatches R j (batches C)))"
  using assms reachable_entry [OF finalState_reachable] by (simp add: generate_def)

lemma slotsOf_labels:
  "s < 10 \<Longrightarrow> t \<le> 10 \<Longrightarrow> start_time e = timeSlots ! s \<Longrightarrow> end_time e = endLabel t \<Longrightarrow>
   slotsOf e = Some (s, t)"
  by (simp add: slotsOf_def timeSlots_boundary endLabel_boundary boundaryLabels_nth)

lemma minutes_labels:
  "s < 10 \<Longrightarrow> t \<le> 10 \<Longrightarrow> start_time e = timeSlots ! s \<Longrightarrow> end_time e = endLabel t \<Longrightarrow>
   minutesOf (start_time e) = 480 + 60 * s \<and> minutesOf (end_time e) = 480 + 60 * t"
  by (simp add: timeSlots_boundary endLabel_boundary boundaryLabels_minutes)

lemma kindDuration_pos: "0 < kindDuration k"
  by (cases k) simp_all

lemma slotsOf_lectureEntry:
  "fitsGrid ti 1 \<Longrightarrow> slotsOf (lectureEntry sectionId subject f room day ti) = Some (ti, ti + 1)"
  by (rule slotsOf_labels) (simp_all add: fitsGrid_def lectureEntry_def)

lemma slotsOf_batchEntry:
  "fitsGrid ti (kindDuration k) \<Longrightarrow>
   slotsOf (batchEntry sectionId subject k f room day ti b) = Some (ti, ti + kindDuration k)"
  using kindDuration_pos [of k]
  by (intro slotsOf_labels) (simp_all add: fitsGrid_def batchEntry_def)

lemma batches_numbers: "b \<in> set (batches C) \<Longrightarrow> number b = 1 \<or> number b = 2 \<or> number b = 3"
  by (auto simp: batches_def numberOfBatches_def upt_conv_Cons)

lemma sorted_batches_numbers:
  assumes "rng_ok R" and "b \<in> set (sortBatches R j (batches C))"
  shows "number b = 1 \<or> number b = 2 \<or> number b = 3"
proof -
  from assms(1) have "mset (sortBatches R j (batches C)) = mset (batches C)"
    by (simp add: rng_ok_def)
  then have "set (sortBatches R j (batches C)) = set (batches C)" by (rule mset_eq_setD)
  with assms(2) batches_numbers [of b C] show ?thesis by simp
qed


section \<open>Running the examples\<close>

lemmas run_defs =
  generate_def finalState_def seededState_def initialState_def
  scheduleLectures_def scheduleLabsAndTutorials_def scheduleBatches_def
  qualifiedFaculty_def reduceLeastUsed_def leastUsedStep_def lectureStep_def lectureLoop.simps
  lectureEntry_def batchEntry_def
  findRoom_def findBestTimeSlot_def getRandomStartTimes_def shuffledDays_def daysOfWeek_def
  slotFits_def isBreakTime_def BREAK_START_def spansBreak_def isSlotAvailable_def
  isFacultyAvailable_def isClassroomAvailable_def slotRange_def timeSlots_def
  commitLecture_def commitBatch_def markSlotOccupied_def markCell_def addUsage_def tick_def
  upt_conv_Cons splice1_def endLabel_def batches_def numberOfBatches_def Let_def
  seedEntry_def seedCell_def getTimeIndex_def mkEntry_def

lemma example_keepOrder:
  "generate keepOrder exampleInputs ''s'' =
     [mkEntry ''s'' ''m'' ''f'' ''r'' ''Monday'' ''08:00'' ''09:00'' ''lecture'' None,
      mkEntry ''s'' ''m'' ''f'' ''r'' ''Wednesday'' ''08:00'' ''09:00'' ''lecture'' None,
      mkEntry ''s'' ''m'' ''f'' ''l'' ''Monday'' ''09:00'' ''11:00'' ''lab'' (Some 1),
      mkEntry ''s'' ''m'' ''f'' ''l'' ''Monday'' ''13:00'' ''15:00'' ''lab'' (Some 2),
      mkEntry ''s'' ''m'' ''f'' ''l'' ''Monday'' ''15:00'' ''17:00'' ''lab'' (Some 3)]"
  by (simp add: run_defs keepOrder_def exampleInputs_def)

lemma example_reverseOrder:
  "generate reverseOrder exampleInputs ''s'' =
     [mkEntry ''s'' ''m'' ''f'' ''r'' ''Friday'' ''17:00'' ''18:00'' ''lecture'' None,
      mkEntry ''s'' ''m'' ''f'' ''r'' ''Wednesday'' ''17:00'' ''18:00'' ''lecture'' None,
      mkEntry ''s'' ''m'' ''f'' ''l'' ''Friday'' ''15:00'' ''17:00'' ''lab'' (Some 3),
      mkEntry ''s'' ''m'' ''f'' ''l'' ''Friday'' ''13:00'' ''15:00'' ''lab'' (Some 2),
      mkEntry ''s'' ''m'' ''f'' ''l'' ''Friday'' ''10:00'' ''12:00'' ''lab'' (Some 1)]"
  by (simp add: run_defs reverseOrder_def exampleInputs_def)

lemma rng_ok_keepOrder: "rng_ok keepOrder"
  by (simp add: rng_ok_def keepOrder_def)

section \<open>Double booking against another section (C1)\<close>

lemma minutesOf_take5 [simp]: "minutesOf (take 5 t) = minutesOf t"
  by (simp add: minutesOf_def)

lemma getTimeIndex_minutes:
  assumes "getTimeIndex (take 5 t) = Some i"
  shows "i < 10 \<and> minutesOf t = 480 + 60 * i"
proof -
  from assms have i: "i < 10" and l: "timeSlots ! i = take 5 t"
    using indexOf_Some [of timeSlots "take 5 t" i] by (simp_all add: getTimeIndex_def)
  from i have "minutesOf (timeSlots ! i) = 480 + 60 * i"
    by (simp add: timeSlots_boundary boundaryLabels_minutes)
  with i l show ?thesis by simp
qed

lemma fold_seedCell_grid:
  "facultySchedule (fold (seedCell x) cells st) d j =
     (if d = day_of_week x \<and> j \<in> set cells then insert (faculty_id x) (facultySchedule st d j)
      else facultySchedule st d j)"
  "classroomSchedule (fold (seedCell x) cells st) d j =
     (if d = day_of_week x \<and> j \<in> set cells then insert (classroom_id x) (classroomSchedule st d j)
      else classroomSchedule st d j)"
  by (induction cells arbitrary: st) (auto simp: seedCell_def)

lemma fold_markCell_grid:
  "facultySchedule (fold (markCell day f c e) cells st) d j =
     (if d = day \<and> j \<in> set cells then insert f (facultySchedule st d j)
      else facultySchedule st d j)"
  "classroomSchedule (fold (markCell day f c e) cells st) d j =
     (if d = day \<and> j \<in> set cells then insert c (classroomSchedule st d j)
      else classroomSchedule st d j)"
  by (induction cells arbitrary: st) (auto simp: markCell_def)

lemma seedEntry_grows:
  "facultySchedule st d j \<subseteq> facultySchedule (seedEntry y st) d j"
  "classroomSchedule st d j \<subseteq> classroomSchedule (seedEntry y st) d j"
  by (auto simp: seedEntry_def Let_def fold_seedCell_grid split: option.splits)

lemma seedEntry_busy: "busyIn (seedEntry x st) x"
  by (auto simp: busyIn_def seedEntry_def Let_def fold_seedCell_grid getTimeIndex_def
      dest: indexOf_Some)

lemma busyIn_grows:
  assumes "busyIn st x"
    and "\<And>d j. facultySchedule st d j \<subseteq> facultySchedule st' d j"
    and "\<And>d j. classroomSchedule st d j \<subseteq> classroomSchedule st' d j"
  shows "busyIn st' x"
  using assms unfolding busyIn_def by blast

lemma fold_seedEntry_busy:
  "x \<in> set xs \<or> busyIn st x \<Longrightarrow> busyIn (fold seedEntry xs st) x"
proof (induction xs arbitrary: st)
  case Nil
  then show ?case by simp
next
  case (Cons y xs)
  have "x \<in> set xs \<or> busyIn (seedEntry y st) x"
  proof (cases "x \<in> set xs")
    case True
    then show ?thesis ..
  next
    case False
    with Cons.prems have "x = y \<or> busyIn st x" by auto
    then have "busyIn (seedEntry y st) x"
      using seedEntry_busy [of y st] busyIn_grows [of st x "seedEntry y st"] seedEntry_grows [of st _ _ y]
      by blast
    then show ?thesis ..
  qed
  from Cons.IH [OF this] show ?case by simp
qed

lemma commit_grows:
  "facultySchedule st d j \<subseteq> facultySchedule (commitLecture sectionId subject f room day ti st) d j"
  "classroomSchedule st d j \<subseteq> classroomSchedule (commitLecture sectionId subject f room day ti st) d j"
  "facultySchedule st d j \<subseteq> facultySchedule (commitBatch sectionId subject k f room day ti b st) d j"
  "classroomSchedule st d j \<subseteq> classroomSchedule (commitBatch sectionId subject k f room day ti b st) d j"
  by (auto simp: commitLecture_def commitBatch_def Let_def addUsage_def markSlotOccupied_def
      fold_markCell_grid)

lemma setKindRoomIndex_grid [simp]:
  "facultySchedule (setKindRoomIndex k n st) = facultySchedule st"
  "classroomSchedule (setKindRoomIndex k n st) = classroomSchedule st"
  by (cases k; simp)+

lemma reachable_busy:
  assumes "reachable R C sectionId st" and "x \<in> set (existingTimetable C)"
  shows "busyIn st x"
  using assms
proof (induction rule: reachable.induct)
  case seeded
  then show ?case by (simp add: seededState_def fold_seedEntry_busy)
next
  case (ticked st)
  then show ?case by (simp add: busyIn_def)
next
  case (lecture st day facultyId room timeIndex subject n)
  then have "busyIn (st\<lparr>lectureRoomIndex := n\<rparr>) x" by (simp add: busyIn_def)
  then show ?case by (rule busyIn_grows) (rule commit_grows)+
next
  case (session st day k facultyId room timeIndex b j subject n)
  then have "busyIn (setKindRoomIndex k n st) x" by (simp add: busyIn_def)
  then show ?case by (rule busyIn_grows) (rule commit_grows)+
qed

lemma new_session_no_clash:
  assumes busy: "busyIn st x"
    and grid: "take 5 (start_time x) \<in> set timeSlots" "take 5 (end_time x) \<in> set timeSlots"
    and pos: "minutesOf (start_time x) < minutesOf (end_time x)"
    and fits: "slotFits st day d f room ti" and d: "0 < d"
    and e: "day_of_week e = day" "minutesOf (start_time e) = 480 + 60 * ti"
      "minutesOf (end_time e) = 480 + 60 * (ti + d)"
    and same: "f = faculty_id x \<or> room_id room = classroom_id x"
  shows "\<not> overlaps x e"
proof
  assume ov: "overlaps x e"
  from grid have "getTimeIndex (take 5 (start_time x)) \<noteq> None"
    "getTimeIndex (take 5 (end_time x)) \<noteq> None"
    by (simp_all add: getTimeIndex_def indexOf_None)
  then obtain s t where s: "getTimeIndex (take 5 (start_time x)) = Some s"
    and t: "getTimeIndex (take 5 (end_time x)) = Some t"
    by auto
  from getTimeIndex_minutes [OF s] getTimeIndex_minutes [OF t]
  have m: "minutesOf (start_time x) = 480 + 60 * s" "minutesOf (end_time x) = 480 + 60 * t"
    by simp_all
  from pos m have st: "s < t" by simp
  from ov e m have day: "day_of_week x = day" and lt: "s < ti + d" "ti < t"
    by (auto simp: overlaps_def)
  let ?j = "max s ti"
  have j: "s \<le> ?j" "ti \<le> ?j" "?j < ti + d" "?j < t" by (use lt st d in auto)
  from busy s t j(1) j(4) day have "faculty_id x \<in> facultySchedule st day ?j"
    "classroom_id x \<in> classroomSchedule st day ?j"
    unfolding busyIn_def by blast+
  with slotFits_faculty_free [OF fits j(2) j(3)] slotFits_room_free [OF fits j(2) j(3)] same
  show False by auto
qed

lemma reachable_no_clash:
  assumes "reachable R C sectionId st"
    and x: "x \<in> set (existingTimetable C)"
    and grid: "take 5 (start_time x) \<in> set timeSlots" "take 5 (end_time x) \<in> set timeSlots"
    and pos: "minutesOf (start_time x) < minutesOf (end_time x)"
  shows "\<forall>e \<in> set (timetableEntries st).
           faculty_id e = faculty_id x \<or> classroom_id e = classroom_id x \<longrightarrow> \<not> overlaps x e"
  using assms(1)
proof (induction rule: reachable.induct)
  case seeded
  then show ?case by simp
next
  case (ticked st)
  then show ?case by simp
next
  case (lecture st day facultyId room timeIndex subject n)
  let ?e = "lectureEntry sectionId subject facultyId room day timeIndex"
  from lecture.hyps(2) have "fitsGrid timeIndex 1" by (rule slotFits_fitsGrid)
  then have ti: "timeIndex < 10" by (simp add: fitsGrid_def)
  have lab: "minutesOf (start_time ?e) = 480 + 60 * timeIndex \<and>
             minutesOf (end_time ?e) = 480 + 60 * (timeIndex + 1)"
    using ti by (intro minutes_labels) simp_all
  have "faculty_id ?e = faculty_id x \<or> classroom_id ?e = classroom_id x \<longrightarrow> \<not> overlaps x ?e"
  proof
    assume "faculty_id ?e = faculty_id x \<or> classroom_id ?e = classroom_id x"
    then have same: "facultyId = faculty_id x \<or> room_id room = classroom_id x" by simp
    show "\<not> overlaps x ?e"
      by (rule new_session_no_clash [OF reachable_busy [OF lecture.hyps(1) x] grid pos
            lecture.hyps(2) _ _ _ _ same]) (use lab in simp_all)
  qed
  with lecture.IH show ?case by (simp add: commitLecture_entries)
next
  case (session st day k facultyId room timeIndex b j subject n)
  let ?e = "batchEntry sectionId subject k facultyId room day timeIndex b"
  from session.hyps(2) have "fitsGrid timeIndex (kindDuration k)" by (rule slotFits_fitsGrid)
  then have ti: "timeIndex < 10" "timeIndex + kindDuration k \<le> 10"
    using kindDuration_pos [of k] by (simp_all add: fitsGrid_def)
  have lab: "minutesOf (start_time ?e) = 480 + 60 * timeIndex \<and>
             minutesOf (end_time ?e) = 480 + 60 * (timeIndex + kindDuration k)"
    using ti by (intro minutes_labels) simp_all
  have "faculty_id ?e = faculty_id x \<or> classroom_id ?e = classroom_id x \<longrightarrow> \<not> overlaps x ?e"
  proof
    assume "faculty_id ?e = faculty_id x \<or> classroom_id ?e = classroom_id x"
    then have same: "facultyId = faculty_id x \<or> room_id room = classroom_id x" by simp
    show "\<not> overlaps x ?e"
      by (rule new_session_no_clash [OF reachable_busy [OF session.hyps(1) x] grid pos
            session.hyps(2) _ _ _ _ same]) (use lab kindDuration_pos in simp_all)
  qed
  with session.IH show ?case by (simp add: commitBatch_entries)
qed

text \<open>
  What the seeding does achieve: a generated entry never overlaps an existing entry of another
  section with the same faculty member or the same classroom, provided both labels of the
  existing entry are slot labels (and it ends after it starts).
\<close>

lemma no_clash_with_on_grid_entries:
  assumes "x \<in> set (existingTimetable C)"
    and "take 5 (start_time x) \<in> set timeSlots" and "take 5 (end_time x) \<in> set timeSlots"
    and "minutesOf (start_time x) < minutesOf (end_time x)"
    and "e \<in> set (generate R C sectionId)"
    and "faculty_id e = faculty_id x \<or> classroom_id e = classroom_id x"
  shows "\<not> overlaps x e"
  using reachable_no_clash [OF finalState_reachable assms(1-4), of R sectionId] assms(5,6)
  unfolding generate_def by blast

text \<open>
  C1 at a failing input. Faculty member \<open>f\<close> already teaches another section on Monday from
  17:00 to 18:00 in room \<open>r\<close>, and is busy in every other slot of Monday. The seeding skips
  the entry that ends at 18:00, so the run puts the target section's lecture with \<open>f\<close> in room
  \<open>r\<close> on Monday from 17:00 to 18:00: faculty member and room are both booked twice.
\<close>

theorem double_booking_at_last_slot:
  "generate keepOrder clashInputs ''s'' =
     [mkEntry ''s'' ''m'' ''f'' ''r'' ''Monday'' ''17:00'' ''18:00'' ''lecture'' None] \<and>
   lateEntry \<in> set (existingTimetable clashInputs) \<and>
   section_id lateEntry = ''o'' \<and> faculty_id lateEntry = ''f'' \<and> classroom_id lateEntry = ''r'' \<and>
   overlaps lateEntry (mkEntry ''s'' ''m'' ''f'' ''r'' ''Monday'' ''17:00'' ''18:00'' ''lecture'' None)"
  by (simp add: run_defs keepOrder_def clashInputs_def oneHour_def lateEntry_def overlaps_def
      minutesOf_def digitOf_def)

section \<open>A failed read (C2)\<close>

text \<open>
  A run without faults on the example store: the old entry of section \<open>s\<close> is replaced by
  the generated lecture, the entry of section \<open>o\<close> stays.
\<close>

lemma mutation_success_example:
  "mutationFn keepOrder noFaults exampleStore ''s'' =
     (Inr [mkEntry ''s'' ''m'' ''a'' ''r'' ''Monday'' ''08:00'' ''09:00'' ''lecture'' None],
      exampleStore\<lparr>timetableTable :=
        [lateEntry, mkEntry ''s'' ''m'' ''a'' ''r'' ''Monday'' ''08:00'' ''09:00'' ''lecture'' None]\<rparr>)"
  by (simp add: mutationFn_def noFaults_def exampleStore_def deleteSection_def selectRows_def
      single_def firstError_def roomsOfType_def oldEntry_def lateEntry_def rowA_def oneHour_def
      run_defs keepOrder_def)






section \<open>Determinism (C3)\<close>

lemma findBestTimeSlot_cong:
  "\<forall>k. getRandomStartTimes R1 k = getRandomStartTimes R2 k \<Longrightarrow>
   findBestTimeSlot R1 st day d f room = findBestTimeSlot R2 st day d f room"
  by (simp add: findBestTimeSlot_def)

lemma tryRooms_cong:
  "\<forall>k. getRandomStartTimes R1 k = getRandomStartTimes R2 k \<Longrightarrow>
   tryRooms R1 day d f rooms ri offs st = tryRooms R2 day d f rooms ri offs st"
  by (induction offs arbitrary: st)
     (simp_all add: findBestTimeSlot_cong [of R1 R2] Let_def split: option.splits)

lemma findRoom_cong:
  "\<forall>k. getRandomStartTimes R1 k = getRandomStartTimes R2 k \<Longrightarrow>
   findRoom R1 day d f rooms ri st = findRoom R2 day d f rooms ri st"
  by (simp add: findRoom_def tryRooms_cong [of R1 R2])

lemma lectureStep_cong:
  assumes d: "shuffledDays R1 = shuffledDays R2"
    and t: "\<forall>k. getRandomStartTimes R1 k = getRandomStartTimes R2 k"
  shows "lectureStep R1 rooms sectionId subject f hs ad st =
         lectureStep R2 rooms sectionId subject f hs ad st"
  unfolding lectureStep_def findRoom_cong [OF t] d by (rule refl)

lemma lectureLoop_cong:
  assumes "shuffledDays R1 = shuffledDays R2"
    and "\<forall>k. getRandomStartTimes R1 k = getRandomStartTimes R2 k"
  shows "lectureLoop R1 rooms sectionId subject f hs ad st =
         lectureLoop R2 rooms sectionId subject f hs ad st"
  using assms
proof (induction R1 rooms sectionId subject f hs ad st rule: lectureLoop.induct)
  case (1 R1 rooms sectionId subject f hs ad st)
  show ?case
  proof (cases "int hs < weekly_hours subject \<and> 0 < length ad")
    case False
    then show ?thesis by (simp add: lectureLoop_stop)
  next
    case True
    have step: "lectureStep R1 rooms sectionId subject f hs ad st =
                lectureStep R2 rooms sectionId subject f hs ad st"
      using "1.prems" by (rule lectureStep_cong)
    have go1: "lectureLoop R1 rooms sectionId subject f hs ad st =
        (case lectureStep R1 rooms sectionId subject f hs ad st of
           Break st' \<Rightarrow> st'
         | Again hs' ad' st' \<Rightarrow> lectureLoop R1 rooms sectionId subject f hs' ad' st')"
      using True by (rule lectureLoop_go)
    have go2: "lectureLoop R2 rooms sectionId subject f hs ad st =
        (case lectureStep R2 rooms sectionId subject f hs ad st of
           Break st' \<Rightarrow> st'
         | Again hs' ad' st' \<Rightarrow> lectureLoop R2 rooms sectionId subject f hs' ad' st')"
      using True by (rule lectureLoop_go)
    show ?thesis
    proof (cases "lectureStep R1 rooms sectionId subject f hs ad st")
      case (Break st')
      moreover from Break step have "lectureStep R2 rooms sectionId subject f hs ad st = Break st'"
        by simp
      ultimately show ?thesis by (simp add: go1 go2)
    next
      case (Again hs' ad' st')
      moreover from Again step have "lectureStep R2 rooms sectionId subject f hs ad st = Again hs' ad' st'"
        by simp
      moreover note "1.IH" [OF True Again "1.prems"]
      ultimately show ?thesis by (simp add: go1 go2)
    qed
  qed
qed

lemma tryDays_cong:
  "\<forall>k. getRandomStartTimes R1 k = getRandomStartTimes R2 k \<Longrightarrow>
   tryDays R1 rooms sectionId subject k f b days st = tryDays R2 rooms sectionId subject k f b days st"
  by (induction days arbitrary: st)
     (simp_all add: findRoom_cong [of R1 R2] split: prod.splits option.splits)

lemma forBatches_cong:
  "shuffledDays R1 = shuffledDays R2 \<Longrightarrow> \<forall>k. getRandomStartTimes R1 k = getRandomStartTimes R2 k \<Longrightarrow>
   forBatches R1 rooms sectionId subject k f bs st = forBatches R2 rooms sectionId subject k f bs st"
  by (induction bs arbitrary: st) (simp_all add: tryDays_cong [of R1 R2])

lemma scheduleLectures_cong:
  "sameOrders C R1 R2 \<Longrightarrow> scheduleLectures R1 C sectionId = scheduleLectures R2 C sectionId"
  by (auto simp: fun_eq_iff scheduleLectures_def sameOrders_def Let_def
      lectureLoop_cong [of R1 R2] split: list.splits)

lemma scheduleBatches_cong:
  "sameOrders C R1 R2 \<Longrightarrow> scheduleBatches R1 C sectionId subject k = scheduleBatches R2 C sectionId subject k"
  by (auto simp: fun_eq_iff scheduleBatches_def sameOrders_def Let_def
      forBatches_cong [of R1 R2] split: list.splits)

lemma scheduleLabsAndTutorials_cong:
  "sameOrders C R1 R2 \<Longrightarrow>
   scheduleLabsAndTutorials R1 C sectionId = scheduleLabsAndTutorials R2 C sectionId"
  by (simp add: fun_eq_iff scheduleLabsAndTutorials_def scheduleBatches_cong [of C R1 R2])

text \<open>
  C3 as stated fails: \<^verbatim>\<open>mutationFn\<close> takes no seed, its shuffles draw from \<^verbatim>\<open>Math.random\<close>.
  Two runs for the same section on the same inputs, one whose sorts keep every list and one
  whose sorts reverse it, produce different sets of entries.
\<close>

theorem generation_not_deterministic:
  "set (generate keepOrder exampleInputs ''s'') \<noteq> set (generate reverseOrder exampleInputs ''s'')"
proof -
  let ?e = "mkEntry ''s'' ''m'' ''f'' ''r'' ''Monday'' ''08:00'' ''09:00'' ''lecture'' None"
  have "?e \<in> set (generate keepOrder exampleInputs ''s'')"
    by (simp add: example_keepOrder)
  moreover have "?e \<notin> set (generate reverseOrder exampleInputs ''s'')"
    by (simp add: example_reverseOrder mkEntry_def)
  ultimately show ?thesis by blast
qed

text \<open>
  C3, as the code has it. The entries of a run are determined by the inputs together with the
  orders its shuffles produce: two runs for the same section on the same inputs with the same
  day order, the same start-slot order at every shuffle and the same batch order at every
  shuffle generate the same list of entries.
\<close>

theorem same_orders_same_entries:
  assumes "sameOrders C R1 R2"
  shows "generate R1 C sectionId = generate R2 C sectionId"
  using assms
  by (simp add: generate_def finalState_def scheduleLectures_cong [of C R1 R2]
      scheduleLabsAndTutorials_cong [of C R1 R2])


theorem same_orders_same_entries_witness:
  "keepOrder \<noteq> keepOrderHere exampleInputs \<and>
   sameOrders exampleInputs keepOrder (keepOrderHere exampleInputs) \<and>
   generate keepOrder exampleInputs ''s'' = generate (keepOrderHere exampleInputs) exampleInputs ''s''"
proof -
  have d: "keepOrder \<noteq> keepOrderHere exampleInputs"
  proof
    assume "keepOrder = keepOrderHere exampleInputs"
    then have "sortDays keepOrder [''a'', ''b''] = sortDays (keepOrderHere exampleInputs) [''a'', ''b'']"
      by simp
    then show False by (simp add: keepOrder_def keepOrderHere_def daysOfWeek_def)
  qed
  have s: "sameOrders exampleInputs keepOrder (keepOrderHere exampleInputs)"
    by (simp add: sameOrders_def keepOrder_def keepOrderHere_def shuffledDays_def
        getRandomStartTimes_def)
  from d s same_orders_same_entries [OF s, of "''s''"] show ?thesis by (intro conjI)
qed

section \<open>Break exclusion (C4)\<close>

text \<open>
  C4. Every entry a generation run produces occupies a slot interval \<open>[s, t)\<close> that does not
  contain the break slot (index 4, the 12:00 slot): the interval is non-empty, lies within the
  ten slots, and either starts after the break slot or ends at or before it. This covers the
  one-slot lectures and tutorials and the two-slot labs, and holds whatever orders the shuffles
  produce.
\<close>

theorem break_exclusion:
  assumes "e \<in> set (generate R C sectionId)"
  shows "avoidsBreak e"
proof -
  from generate_entry [OF assms] show ?thesis
  proof (elim disjE exE conjE)
    fix subject f room day ti
    assume e: "e = lectureEntry sectionId subject f room day ti" and g: "fitsGrid ti 1"
    from g show ?thesis
      by (auto simp: avoidsBreak_def e slotsOf_lectureEntry [OF g] fitsGrid_def)
  next
    fix subject k f room day ti b j
    assume e: "e = batchEntry sectionId subject k f room day ti b"
      and g: "fitsGrid ti (kindDuration k)"
    from g kindDuration_pos [of k] show ?thesis
      by (auto simp: avoidsBreak_def e slotsOf_batchEntry [OF g] fitsGrid_def)
  qed
qed

text \<open>
  In the example run with reversed shuffles, the lab of batch 1 is placed on 10:00 to 12:00,
  the two slots just before the break.
\<close>

theorem break_exclusion_witness:
  "mkEntry ''s'' ''m'' ''f'' ''l'' ''Friday'' ''10:00'' ''12:00'' ''lab'' (Some 1)
     \<in> set (generate reverseOrder exampleInputs ''s'') \<and>
   avoidsBreak (mkEntry ''s'' ''m'' ''f'' ''l'' ''Friday'' ''10:00'' ''12:00'' ''lab'' (Some 1))"
proof -
  have m: "mkEntry ''s'' ''m'' ''f'' ''l'' ''Friday'' ''10:00'' ''12:00'' ''lab'' (Some 1)
     \<in> set (generate reverseOrder exampleInputs ''s'')"
    by (simp add: example_reverseOrder)
  from m break_exclusion [OF m] show ?thesis by (rule conjI)
qed

section \<open>Duration law (C5)\<close>

text \<open>
  C5. Every generated entry of session type \<^verbatim>\<open>lab\<close> ends exactly two slots after it starts,
  and every generated entry of type \<^verbatim>\<open>lecture\<close> or \<^verbatim>\<open>tutorial\<close> exactly one slot after it
  starts; an end at the 18:00 boundary counts as slot index 10. Every generated entry has one
  of the three types.
\<close>

theorem duration_law:
  assumes "e \<in> set (generate R C sectionId)"
  shows "durationLaw e"
proof -
  from generate_entry [OF assms] show ?thesis
  proof (elim disjE exE conjE)
    fix subject f room day ti
    assume e: "e = lectureEntry sectionId subject f room day ti" and g: "fitsGrid ti 1"
    have "slotsOf e = Some (ti, ti + 1)" unfolding e using g by (rule slotsOf_lectureEntry)
    moreover have "subject_type e = ''lecture''" by (simp add: e lectureEntry_def)
    ultimately show ?thesis by (simp add: durationLaw_def)
  next
    fix subject k f room day ti b j
    assume e: "e = batchEntry sectionId subject k f room day ti b"
      and g: "fitsGrid ti (kindDuration k)"
    have "slotsOf e = Some (ti, ti + kindDuration k)" unfolding e using g by (rule slotsOf_batchEntry)
    moreover have "subject_type e = kindType k" by (simp add: e batchEntry_def)
    ultimately show ?thesis by (cases k) (simp_all add: durationLaw_def)
  qed
qed

text \<open>In the example run with reversed shuffles, the first lecture runs from 17:00 to 18:00.\<close>

theorem duration_law_witness:
  "mkEntry ''s'' ''m'' ''f'' ''r'' ''Friday'' ''17:00'' ''18:00'' ''lecture'' None
     \<in> set (generate reverseOrder exampleInputs ''s'') \<and>
   durationLaw (mkEntry ''s'' ''m'' ''f'' ''r'' ''Friday'' ''17:00'' ''18:00'' ''lecture'' None)"
proof -
  have m: "mkEntry ''s'' ''m'' ''f'' ''r'' ''Friday'' ''17:00'' ''18:00'' ''lecture'' None
     \<in> set (generate reverseOrder exampleInputs ''s'')"
    by (simp add: example_reverseOrder)
  from m duration_law [OF m] show ?thesis by (rule conjI)
qed

section \<open>At most one lecture per subject and day (C6)\<close>

lemma lectureKeys_append [simp]: "lectureKeys (xs @ ys) = lectureKeys xs @ lectureKeys ys"
  by (simp add: lectureKeys_def)

lemma lectureKeys_lecture [simp]:
  "lectureKeys [lectureEntry sectionId subject f room day ti] = [(subj_id subject, day)]"
  by (simp add: lectureKeys_def)

lemma kindType_not_lecture [simp]: "kindType k \<noteq> ''lecture''"
  by (cases k) simp_all

lemma lectureKeys_batch [simp]:
  "lectureKeys [batchEntry sectionId subject k f room day ti b] = []"
  by (simp add: lectureKeys_def)

lemma in_lectureKeys:
  "(s, d) \<in> set (lectureKeys es) \<longleftrightarrow>
   (\<exists>e \<in> set es. subject_type e = ''lecture'' \<and> subject_id e = s \<and> day_of_week e = d)"
  by (auto simp: lectureKeys_def)

lemma reachable_lectures:
  assumes "reachable R C sectionId st"
  shows "distinct (lectureKeys (timetableEntries st)) \<and>
         (\<forall>e \<in> set (timetableEntries st). subject_type e = ''lecture'' \<longrightarrow>
            subject_id e \<in> dailySubjectLectures st (day_of_week e))"
  using assms
proof (induction rule: reachable.induct)
  case seeded
  then show ?case by (simp add: lectureKeys_def)
next
  case (ticked st)
  then show ?case by simp
next
  case (lecture st day facultyId room timeIndex subject n)
  from lecture.IH lecture.hyps(3) have "(subj_id subject, day) \<notin> set (lectureKeys (timetableEntries st))"
    by (auto simp: in_lectureKeys)
  with lecture.IH show ?case
    by (auto simp: commitLecture_entries commitLecture_daily)
next
  case (session st day k facultyId room timeIndex b j subject n)
  then show ?case
    by (auto simp: commitBatch_entries commitBatch_daily)
qed

lemma distinct_map_filter_le1:
  "distinct (map f xs) \<Longrightarrow> length (filter (\<lambda>x. f x = k) xs) \<le> 1"
proof (induction xs)
  case Nil
  then show ?case by simp
next
  case (Cons x xs)
  show ?case
  proof (cases "f x = k")
    case True
    with Cons.prems have "k \<notin> f ` set xs" by auto
    then have "filter (\<lambda>x. f x = k) xs = []" by (auto simp: filter_empty_conv)
    with True show ?thesis by simp
  next
    case False
    with Cons show ?thesis by simp
  qed
qed

text \<open>
  C6. Among the entries one generation run produces, for every subject and every day there is
  at most one entry of type \<^verbatim>\<open>lecture\<close>. The refill of \<^verbatim>\<open>availableDays\<close> does not break
  this: a day is used for a lecture only after the test that the subject has no lecture on it.
\<close>

theorem one_lecture_per_day:
  "length [e \<leftarrow> generate R C sectionId.
             subject_type e = ''lecture'' \<and> subject_id e = subj \<and> day_of_week e = day] \<le> 1"
proof -
  let ?es = "generate R C sectionId"
  let ?key = "\<lambda>e. (subject_id e, day_of_week e)"
  have "distinct (map ?key (filter (\<lambda>e. subject_type e = ''lecture'') ?es))"
    using reachable_lectures [OF finalState_reachable, of R C sectionId]
    by (simp add: generate_def lectureKeys_def)
  then have "length (filter (\<lambda>e. ?key e = (subj, day)) (filter (\<lambda>e. subject_type e = ''lecture'') ?es)) \<le> 1"
    by (rule distinct_map_filter_le1)
  moreover have "filter (\<lambda>e. ?key e = (subj, day)) (filter (\<lambda>e. subject_type e = ''lecture'') ?es) =
      [e \<leftarrow> ?es. subject_type e = ''lecture'' \<and> subject_id e = subj \<and> day_of_week e = day]"
    by (simp add: conj_commute conj_left_commute cong: conj_cong)
  ultimately show ?thesis by simp
qed

text \<open>The example run has two lectures of its one subject, on different days.\<close>

theorem one_lecture_per_day_witness:
  "length [e \<leftarrow> generate keepOrder exampleInputs ''s''.
             subject_type e = ''lecture'' \<and> subject_id e = ''m'' \<and> day_of_week e = ''Monday''] \<le> 1 \<and>
   length [e \<leftarrow> generate keepOrder exampleInputs ''s''. subject_type e = ''lecture''] = 2"
proof -
  have "length [e \<leftarrow> generate keepOrder exampleInputs ''s''. subject_type e = ''lecture''] = 2"
    by (simp add: example_keepOrder mkEntry_def)
  with one_lecture_per_day [where R = keepOrder and C = exampleInputs and sectionId = "''s''"
      and subj = "''m''" and day = "''Monday''"]
  show ?thesis by (rule conjI)
qed

section \<open>Batch tagging (C7)\<close>

text \<open>
  C7. When every shuffle returns a rearrangement of its argument, each generated entry of type
  \<^verbatim>\<open>lecture\<close> has no batch number (null), and each generated entry of type \<^verbatim>\<open>lab\<close> or
  \<^verbatim>\<open>tutorial\<close> has batch number 1, 2 or 3.
\<close>

theorem batch_tagging:
  assumes "rng_ok R" and "e \<in> set (generate R C sectionId)"
  shows "batchTagged e"
proof -
  from generate_entry [OF assms(2)] show ?thesis
  proof (elim disjE exE conjE)
    fix subject f room day ti
    assume e: "e = lectureEntry sectionId subject f room day ti"
    show ?thesis by (simp add: batchTagged_def e lectureEntry_def)
  next
    fix subject k f room day ti b j
    assume e: "e = batchEntry sectionId subject k f room day ti b"
      and b: "b \<in> set (sortBatches R j (batches C))"
    from sorted_batches_numbers [OF assms(1) b] show ?thesis
      by (cases k) (auto simp: batchTagged_def e batchEntry_def)
  qed
qed

theorem batch_tagging_witness:
  "rng_ok keepOrder \<and>
   mkEntry ''s'' ''m'' ''f'' ''l'' ''Monday'' ''13:00'' ''15:00'' ''lab'' (Some 2)
     \<in> set (generate keepOrder exampleInputs ''s'') \<and>
   batchTagged (mkEntry ''s'' ''m'' ''f'' ''l'' ''Monday'' ''13:00'' ''15:00'' ''lab'' (Some 2))"
proof -
  have m: "mkEntry ''s'' ''m'' ''f'' ''l'' ''Monday'' ''13:00'' ''15:00'' ''lab'' (Some 2)
     \<in> set (generate keepOrder exampleInputs ''s'')"
    by (simp add: example_keepOrder)
  from rng_ok_keepOrder m batch_tagging [OF rng_ok_keepOrder m] show ?thesis by (intro conjI)
qed

section \<open>Choosing the least loaded faculty member (C8)\<close>

lemma assignedHours_snoc:
  "assignedHours (es @ [e]) f = assignedHours es f + (if faculty_id e = f then hoursOf e else 0)"
  by (simp add: assignedHours_def)

lemma hoursOf_lectureEntry:
  "fitsGrid ti 1 \<Longrightarrow> hoursOf (lectureEntry sectionId subject f room day ti) = 1"
  by (simp add: hoursOf_def slotsOf_lectureEntry)

lemma hoursOf_batchEntry:
  "fitsGrid ti (kindDuration k) \<Longrightarrow>
   hoursOf (batchEntry sectionId subject k f room day ti b) = kindDuration k"
  by (simp add: hoursOf_def slotsOf_batchEntry)

lemma reachable_usage:
  assumes "reachable R C sectionId st"
  shows "facultyUsageCount st f = assignedHours (timetableEntries st) f"
  using assms
proof (induction rule: reachable.induct)
  case seeded
  then show ?case by (simp add: assignedHours_def)
next
  case (ticked st)
  then show ?case by simp
next
  case (lecture st day facultyId room timeIndex subject n)
  from lecture.hyps(2) have "fitsGrid timeIndex 1" by (rule slotFits_fitsGrid)
  with lecture.IH show ?case
    by (auto simp: commitLecture_usage commitLecture_entries assignedHours_snoc hoursOf_lectureEntry)
next
  case (session st day k facultyId room timeIndex b j subject n)
  from session.hyps(2) have "fitsGrid timeIndex (kindDuration k)" by (rule slotFits_fitsGrid)
  with session.IH show ?case
    by (auto simp: commitBatch_usage commitBatch_entries assignedHours_snoc hoursOf_batchEntry)
qed

lemma reduceLeastUsed_first_least:
  "\<exists>pre post. q # qs = pre @ reduceLeastUsed u q qs # post \<and>
     (\<forall>r \<in> set pre. u (fs_faculty_id (reduceLeastUsed u q qs)) < u (fs_faculty_id r)) \<and>
     (\<forall>r \<in> set post. u (fs_faculty_id (reduceLeastUsed u q qs)) \<le> u (fs_faculty_id r))"
proof (induction qs rule: rev_induct)
  case Nil
  show ?case
    by (intro exI [of _ "[]"]) (simp add: reduceLeastUsed_def)
next
  case (snoc x qs)
  let ?c = "reduceLeastUsed u q qs"
  from snoc obtain pre post where dec: "q # qs = pre @ ?c # post"
    and pre: "\<forall>r \<in> set pre. u (fs_faculty_id ?c) < u (fs_faculty_id r)"
    and post: "\<forall>r \<in> set post. u (fs_faculty_id ?c) \<le> u (fs_faculty_id r)"
    by blast
  have step: "reduceLeastUsed u q (qs @ [x]) = leastUsedStep u ?c x"
    by (simp add: reduceLeastUsed_def)
  show ?case
  proof (cases "u (fs_faculty_id x) < u (fs_faculty_id ?c)")
    case True
    then have c': "reduceLeastUsed u q (qs @ [x]) = x"
      by (simp add: step leastUsedStep_def)
    have "\<forall>r \<in> set (q # qs). u (fs_faculty_id x) < u (fs_faculty_id r)"
      unfolding dec using True pre post by fastforce
    then show ?thesis
      unfolding c' by (intro exI [of _ "q # qs"] exI [of _ "[]"]) simp
  next
    case False
    then have c': "reduceLeastUsed u q (qs @ [x]) = ?c"
      by (simp add: step leastUsedStep_def)
    show ?thesis
      unfolding c' using dec pre post False
      by (intro exI [of _ pre] exI [of _ "post @ [x]"]) auto
  qed
qed

lemma inBlock_Nil [simp]: "inBlock s ty f []"
  by (simp add: inBlock_def)

lemma inBlock_append [simp]: "inBlock s ty f (xs @ ys) \<longleftrightarrow> inBlock s ty f xs \<and> inBlock s ty f ys"
  by (auto simp: inBlock_def)

lemma tryRooms_entries:
  "tryRooms R day d f rooms ri offs st = (res, st') \<Longrightarrow> timetableEntries st' = timetableEntries st"
  by (induction offs arbitrary: st) (auto simp: Let_def split: option.splits)

lemma findRoom_entries:
  "findRoom R day d f rooms ri st = (res, st') \<Longrightarrow> timetableEntries st' = timetableEntries st"
  unfolding findRoom_def by (rule tryRooms_entries)

lemma lectureStep_entries:
  assumes "lectureStep R rooms sectionId subject f hs ad st = Break st' \<or>
           lectureStep R rooms sectionId subject f hs ad st = Again hs' ad' st'"
  shows "\<exists>xs. timetableEntries st' = timetableEntries st @ xs \<and>
              inBlock (subj_id subject) ''lecture'' f xs"
proof (cases "subj_id subject \<in> dailySubjectLectures st (ad ! (hs mod length ad))")
  case True
  with assms have "st' = st" by (auto simp: lectureStep_def Let_def split: if_splits)
  then show ?thesis by simp
next
  case False
  obtain res st1 where fr: "findRoom R (ad ! (hs mod length ad)) 1 f rooms (lectureRoomIndex st) st = (res, st1)"
    by (cases "findRoom R (ad ! (hs mod length ad)) 1 f rooms (lectureRoomIndex st) st")
  from findRoom_entries [OF fr] have e1: "timetableEntries st1 = timetableEntries st" .
  show ?thesis
  proof (cases res)
    case None
    with False fr assms have "st' = st1" by (auto simp: lectureStep_def Let_def split: if_splits)
    with e1 show ?thesis by simp
  next
    case (Some t)
    obtain room slot n where t: "t = (room, slot, n)" by (cases t)
    from False fr Some t assms
    have "st' = commitLecture sectionId subject f room (ad ! (hs mod length ad)) slot (st1\<lparr>lectureRoomIndex := n\<rparr>)"
      by (auto simp: lectureStep_def Let_def split: if_splits)
    with e1 show ?thesis by (simp add: commitLecture_entries inBlock_def)
  qed
qed

lemma lectureLoop_entries:
  "\<exists>xs. timetableEntries (lectureLoop R rooms sectionId subject f hs ad st) = timetableEntries st @ xs \<and>
        inBlock (subj_id subject) ''lecture'' f xs"
proof (induction R rooms sectionId subject f hs ad st rule: lectureLoop.induct)
  case (1 R rooms sectionId subject f hs ad st)
  show ?case
  proof (cases "int hs < weekly_hours subject \<and> 0 < length ad")
    case False
    then show ?thesis by (simp add: lectureLoop_stop)
  next
    case True
    show ?thesis
    proof (cases "lectureStep R rooms sectionId subject f hs ad st")
      case (Break st')
      with lectureStep_entries [of R rooms sectionId subject f hs ad st st'] True
      show ?thesis by (simp add: lectureLoop_go)
    next
      case (Again hs' ad' st')
      from lectureStep_entries [of R rooms sectionId subject f hs ad st st' hs' ad'] Again
      obtain xs where xs: "timetableEntries st' = timetableEntries st @ xs"
        "inBlock (subj_id subject) ''lecture'' f xs" by auto
      from "1.IH" [OF True Again] obtain ys where
        ys: "timetableEntries (lectureLoop R rooms sectionId subject f hs' ad' st') = timetableEntries st' @ ys"
        "inBlock (subj_id subject) ''lecture'' f ys" by auto
      from xs ys True Again show ?thesis
        by (intro exI [of _ "xs @ ys"]) (simp add: lectureLoop_go)
    qed
  qed
qed

lemma tryDays_entries:
  "\<exists>xs. timetableEntries (tryDays R rooms sectionId subject k f b days st) = timetableEntries st @ xs \<and>
        inBlock (subj_id subject) (kindType k) f xs"
proof (induction days arbitrary: st)
  case Nil
  show ?case by simp
next
  case (Cons day days)
  obtain res st1 where fr: "findRoom R day (kindDuration k) f rooms (kindRoomIndex k st) st = (res, st1)"
    by (cases "findRoom R day (kindDuration k) f rooms (kindRoomIndex k st) st")
  from findRoom_entries [OF fr] have e1: "timetableEntries st1 = timetableEntries st" .
  show ?case
  proof (cases res)
    case None
    with fr e1 Cons.IH [of st1] show ?thesis by simp
  next
    case (Some t)
    obtain room slot n where t: "t = (room, slot, n)" by (cases t)
    with fr Some e1 show ?thesis by (simp add: commitBatch_entries inBlock_def)
  qed
qed

lemma forBatches_entries:
  "\<exists>xs. timetableEntries (forBatches R rooms sectionId subject k f bs st) = timetableEntries st @ xs \<and>
        inBlock (subj_id subject) (kindType k) f xs"
proof (induction bs arbitrary: st)
  case Nil
  show ?case by simp
next
  case (Cons b bs)
  from tryDays_entries [of R rooms sectionId subject k f b "shuffledDays R" st]
  obtain xs where xs: "timetableEntries (tryDays R rooms sectionId subject k f b (shuffledDays R) st) =
      timetableEntries st @ xs" "inBlock (subj_id subject) (kindType k) f xs" by auto
  from Cons.IH [of "tryDays R rooms sectionId subject k f b (shuffledDays R) st"]
  obtain ys where ys: "timetableEntries (forBatches R rooms sectionId subject k f bs
        (tryDays R rooms sectionId subject k f b (shuffledDays R) st)) =
      timetableEntries (tryDays R rooms sectionId subject k f b (shuffledDays R) st) @ ys"
    "inBlock (subj_id subject) (kindType k) f ys" by auto
  from xs ys show ?case by (intro exI [of _ "xs @ ys"]) simp
qed

lemma chosen_old:
  assumes "chosenLeastLoaded C es i" and "i < length es"
  shows "chosenLeastLoaded C (es @ xs) i"
proof -
  from assms(1) obtain n subject q qs where n: "n \<le> i"
    and blk: "\<forall>m. n \<le> m \<and> m < i \<longrightarrow>
           subject_id (es ! m) = subject_id (es ! i) \<and> subject_type (es ! m) = subject_type (es ! i)"
    and rest: "subj_id subject = subject_id (es ! i)"
      "qualifiedFaculty (subject_type (es ! i)) (facultySubjects C) subject = q # qs"
      "faculty_id (es ! i) = fs_faculty_id (reduceLeastUsed (assignedHours (take n es)) q qs)"
      "leastLoadedFirst (\<lambda>r. assignedHours (take n es) (fs_faculty_id r)) (q # qs)
          (reduceLeastUsed (assignedHours (take n es)) q qs)"
    unfolding chosenLeastLoaded_def by blast
  from n assms(2) have tk: "take n (es @ xs) = take n es" by simp
  have nth: "\<And>m. m \<le> i \<Longrightarrow> (es @ xs) ! m = es ! m" using assms(2) by (simp add: nth_append)
  show ?thesis
    unfolding chosenLeastLoaded_def
    by (intro exI [of _ n] exI [of _ subject] exI [of _ q] exI [of _ qs])
       (use n blk rest in \<open>simp add: tk nth del: take_append\<close>)
qed

lemma chosen_extend:
  assumes old: "\<forall>i < length es. chosenLeastLoaded C es i"
    and blk: "inBlock (subj_id subject) ty f xs"
    and q: "qualifiedFaculty ty (facultySubjects C) subject = q # qs"
    and f: "f = fs_faculty_id (reduceLeastUsed (assignedHours es) q qs)"
  shows "\<forall>i < length (es @ xs). chosenLeastLoaded C (es @ xs) i"
proof (intro allI impI)
  fix i assume i: "i < length (es @ xs)"
  show "chosenLeastLoaded C (es @ xs) i"
  proof (cases "i < length es")
    case True
    with old show ?thesis by (simp add: chosen_old)
  next
    case False
    have inx: "\<And>m. length es \<le> m \<Longrightarrow> m \<le> i \<Longrightarrow>
        subject_id ((es @ xs) ! m) = subj_id subject \<and> subject_type ((es @ xs) ! m) = ty \<and>
        faculty_id ((es @ xs) ! m) = f"
    proof -
      fix m assume m: "length es \<le> m" "m \<le> i"
      with i have "(es @ xs) ! m = xs ! (m - length es)" "m - length es < length xs"
        by (simp_all add: nth_append)
      then have "(es @ xs) ! m \<in> set xs" by simp
      with blk show "subject_id ((es @ xs) ! m) = subj_id subject \<and> subject_type ((es @ xs) ! m) = ty \<and>
        faculty_id ((es @ xs) ! m) = f" unfolding inBlock_def by blast
    qed
    from False have le: "length es \<le> i" by simp
    have llf: "leastLoadedFirst (\<lambda>r. assignedHours es (fs_faculty_id r)) (q # qs)
        (reduceLeastUsed (assignedHours es) q qs)"
      unfolding leastLoadedFirst_def by (rule reduceLeastUsed_first_least)
    show ?thesis
      unfolding chosenLeastLoaded_def
      by (intro exI [of _ "length es"] exI [of _ subject] exI [of _ q] exI [of _ qs])
         (use le inx [of i] inx q f llf in \<open>auto\<close>)
  qed
qed

lemma usage_assigned:
  "reachable R C sectionId st \<Longrightarrow> facultyUsageCount st = assignedHours (timetableEntries st)"
  by (simp add: fun_eq_iff reachable_usage)

lemma scheduleLectures_chosen:
  assumes r: "reachable R C sectionId st" and c: "chosenAll C st"
  shows "chosenAll C (scheduleLectures R C sectionId subject st)"
proof (cases "qualifiedFaculty ''lecture'' (facultySubjects C) subject")
  case Nil
  with c show ?thesis by (simp add: scheduleLectures_def)
next
  case (Cons q qs)
  let ?f = "fs_faculty_id (reduceLeastUsed (facultyUsageCount st) q qs)"
  from lectureLoop_entries [of R "lectureClassrooms C" sectionId subject ?f 0 "shuffledDays R" st]
  obtain xs where xs: "timetableEntries (lectureLoop R (lectureClassrooms C) sectionId subject ?f 0
        (shuffledDays R) st) = timetableEntries st @ xs"
    "inBlock (subj_id subject) ''lecture'' ?f xs" by auto
  have "\<forall>i < length (timetableEntries st @ xs). chosenLeastLoaded C (timetableEntries st @ xs) i"
    using c xs(2) Cons unfolding chosenAll_def usage_assigned [OF r]
    by (rule chosen_extend) simp
  with Cons xs(1) show ?thesis by (simp add: scheduleLectures_def chosenAll_def Let_def)
qed

lemma scheduleBatches_chosen:
  assumes r: "reachable R C sectionId st" and c: "chosenAll C st"
  shows "chosenAll C (scheduleBatches R C sectionId subject k st)"
proof (cases "qualifiedFaculty (kindType k) (facultySubjects C) subject")
  case Nil
  with c show ?thesis by (simp add: scheduleBatches_def)
next
  case (Cons q qs)
  let ?f = "fs_faculty_id (reduceLeastUsed (facultyUsageCount st) q qs)"
  let ?bs = "sortBatches R (sortCalls st) (batches C)"
  from forBatches_entries [of R "kindRooms C k" sectionId subject k ?f ?bs "tick st"]
  obtain xs where xs: "timetableEntries (forBatches R (kindRooms C k) sectionId subject k ?f ?bs (tick st)) =
      timetableEntries st @ xs"
    "inBlock (subj_id subject) (kindType k) ?f xs" by auto
  have "\<forall>i < length (timetableEntries st @ xs). chosenLeastLoaded C (timetableEntries st @ xs) i"
    using c xs(2) Cons unfolding chosenAll_def usage_assigned [OF r]
    by (rule chosen_extend) simp
  with Cons xs(1) show ?thesis by (simp add: scheduleBatches_def chosenAll_def Let_def)
qed

lemma scheduleLabsAndTutorials_chosen:
  assumes r: "reachable R C sectionId st" and c: "chosenAll C st"
  shows "chosenAll C (scheduleLabsAndTutorials R C sectionId subject st)"
  using r c
  by (simp add: scheduleLabsAndTutorials_def Let_def scheduleBatches_chosen scheduleBatches_reachable)

lemma fold_chosen:
  assumes step: "\<And>x st. reachable R C sectionId st \<Longrightarrow> chosenAll C st \<Longrightarrow>
      reachable R C sectionId (f x st) \<and> chosenAll C (f x st)"
  shows "reachable R C sectionId st \<Longrightarrow> chosenAll C st \<Longrightarrow>
      reachable R C sectionId (fold f xs st) \<and> chosenAll C (fold f xs st)"
  by (induction xs arbitrary: st) (simp_all add: step)

lemma finalState_chosen: "chosenAll C (finalState R C sectionId)"
proof -
  have s: "reachable R C sectionId (seededState C) \<and> chosenAll C (seededState C)"
    by (simp add: reachable.seeded chosenAll_def)
  have l: "reachable R C sectionId (fold (scheduleLectures R C sectionId) (subjects C) (seededState C)) \<and>
      chosenAll C (fold (scheduleLectures R C sectionId) (subjects C) (seededState C))"
    using s by (intro fold_chosen) (simp_all add: scheduleLectures_reachable scheduleLectures_chosen)
  then show ?thesis
    unfolding finalState_def
    using fold_chosen [of R C sectionId "scheduleLabsAndTutorials R C sectionId" _ "subjects C"]
    by (simp add: scheduleLabsAndTutorials_reachable scheduleLabsAndTutorials_chosen)
qed

text \<open>
  C8, as the code has it. Every entry of a generation run has the faculty member that was
  selected for its subject and session type: at the point of the run where the entries
  generated so far were the first \<open>n\<close> entries of the result (all entries from there up to this
  one are sessions of the same subject and type), the rows qualified for the subject and the
  session type were not empty, and the entry's faculty member is the one of the first row
  among them with the least load, the load of a faculty member being the running count of
  hours assigned to that member in this run, that is the hours of those first \<open>n\<close> entries.
  Ties go to the row that comes first in the faculty-subject list as the store returned
  it, not to an order on faculty ids.
\<close>

theorem chosen_faculty_least_loaded:
  assumes "i < length (generate R C sectionId)"
  shows "chosenLeastLoaded C (generate R C sectionId) i"
  using assms finalState_chosen [of C R sectionId] by (simp add: generate_def chosenAll_def)

text \<open>
  In the example, when the lecture of subject \<open>n\<close> is scheduled, \<open>a\<close> has one hour from the
  lecture of subject \<open>m\<close> and \<open>b\<close> has none; the lecture goes to \<open>b\<close>, whose row is the second
  of the two qualified rows.
\<close>

lemma load_run:
  "generate keepOrder loadInputs ''s'' =
     [mkEntry ''s'' ''m'' ''a'' ''r'' ''Monday'' ''08:00'' ''09:00'' ''lecture'' None,
      mkEntry ''s'' ''n'' ''b'' ''r'' ''Monday'' ''09:00'' ''10:00'' ''lecture'' None]"
  by (simp add: run_defs keepOrder_def loadInputs_def rowA_def rowAn_def rowBn_def oneHour_def)

theorem chosen_faculty_least_loaded_witness:
  "1 < length (generate keepOrder loadInputs ''s'') \<and>
   chosenLeastLoaded loadInputs (generate keepOrder loadInputs ''s'') 1 \<and>
   faculty_id (generate keepOrder loadInputs ''s'' ! 1) = ''b'' \<and>
   qualifiedFaculty ''lecture'' (facultySubjects loadInputs) (oneHour\<lparr>subj_id := ''n''\<rparr>) = [rowAn, rowBn] \<and>
   assignedHours (take 1 (generate keepOrder loadInputs ''s'')) ''a'' = 1 \<and>
   assignedHours (take 1 (generate keepOrder loadInputs ''s'')) ''b'' = 0"
proof -
  have l: "1 < length (generate keepOrder loadInputs ''s'')" by (simp add: load_run)
  have f: "faculty_id (generate keepOrder loadInputs ''s'' ! 1) = ''b''"
    by (simp add: load_run mkEntry_def)
  have q: "qualifiedFaculty ''lecture'' (facultySubjects loadInputs) (oneHour\<lparr>subj_id := ''n''\<rparr>) = [rowAn, rowBn]"
    by (simp add: qualifiedFaculty_def loadInputs_def rowA_def rowAn_def rowBn_def oneHour_def)
  have a: "assignedHours (take 1 (generate keepOrder loadInputs ''s'')) ''a'' = 1"
    by (simp add: load_run mkEntry_def assignedHours_def hoursOf_def slotsOf_def boundaryIndex_def
        boundaryLabels_def timeSlots_def)
  have b: "assignedHours (take 1 (generate keepOrder loadInputs ''s'')) ''b'' = 0"
    by (simp add: load_run mkEntry_def assignedHours_def)
  from l chosen_faculty_least_loaded [OF l] f q a b show ?thesis by (intro conjI)
qed

lemma tie_run_BA:
  "generate keepOrder (tieInputs [rowB, rowA]) ''s'' =
     [mkEntry ''s'' ''m'' ''b'' ''r'' ''Monday'' ''08:00'' ''09:00'' ''lecture'' None]"
  by (simp add: run_defs keepOrder_def tieInputs_def rowA_def rowB_def oneHour_def)

lemma tie_run_AB:
  "generate keepOrder (tieInputs [rowA, rowB]) ''s'' =
     [mkEntry ''s'' ''m'' ''a'' ''r'' ''Monday'' ''08:00'' ''09:00'' ''lecture'' None]"
  by (simp add: run_defs keepOrder_def tieInputs_def rowA_def rowB_def oneHour_def)

text \<open>
  C8 as stated fails in its tie-break: the two runs below have the same two qualified faculty
  members \<open>a\<close> and \<open>b\<close>, both with load 0, and differ only in the order of the two
  faculty-subject rows; one run chooses \<open>b\<close>, the other \<open>a\<close>. No order on faculty ids decides
  the tie.
\<close>

theorem tie_break_counterexample:
  "map faculty_id (generate keepOrder (tieInputs [rowB, rowA]) ''s'') = [''b''] \<and>
   map faculty_id (generate keepOrder (tieInputs [rowA, rowB]) ''s'') = [''a'']"
  by (simp add: tie_run_BA tie_run_AB mkEntry_def)

section \<open>No overlap within the generated section (C9)\<close>

lemma new_session_disjoint:
  assumes occ: "occupies st e"
    and free: "\<And>j. ti \<le> j \<Longrightarrow> j < ti + d \<Longrightarrow> schedule st day j = None"
    and d: "0 < d"
    and e': "day_of_week e' = day" "minutesOf (start_time e') = 480 + 60 * ti"
      "minutesOf (end_time e') = 480 + 60 * (ti + d)"
  shows "\<not> overlaps e e'"
proof
  assume ov: "overlaps e e'"
  from occ obtain s t where st: "s < t" "t \<le> 10"
    "minutesOf (start_time e) = 480 + 60 * s" "minutesOf (end_time e) = 480 + 60 * t"
    and busy: "\<And>j. s \<le> j \<Longrightarrow> j < t \<Longrightarrow> schedule st (day_of_week e) j \<noteq> None"
    unfolding occupies_def by blast
  from ov e' st have day: "day_of_week e = day" and lt: "s < ti + d" "ti < t"
    by (auto simp: overlaps_def)
  have "s \<le> max s ti" "max s ti < t" "ti \<le> max s ti" "max s ti < ti + d"
    using st(1) lt d by auto
  with busy [of "max s ti"] free [of "max s ti"] day show False by simp
qed

lemma reachable_no_overlap:
  assumes "reachable R C sectionId st"
  shows "sorted_wrt (\<lambda>a b. \<not> overlaps a b) (timetableEntries st) \<and>
         (\<forall>e \<in> set (timetableEntries st). occupies st e)"
  using assms
proof (induction rule: reachable.induct)
  case seeded
  then show ?case by simp
next
  case (ticked st)
  then show ?case by (simp add: occupies_def)
next
  case (lecture st day facultyId room timeIndex subject n)
  let ?e = "lectureEntry sectionId subject facultyId room day timeIndex"
  let ?st' = "commitLecture sectionId subject facultyId room day timeIndex (st\<lparr>lectureRoomIndex := n\<rparr>)"
  from lecture.hyps(2) have g: "fitsGrid timeIndex 1" by (rule slotFits_fitsGrid)
  then have ti: "timeIndex < 10" by (simp add: fitsGrid_def)
  have lab: "minutesOf (start_time ?e) = 480 + 60 * timeIndex \<and>
             minutesOf (end_time ?e) = 480 + 60 * (timeIndex + 1)"
    using ti by (intro minutes_labels) simp_all
  have free: "\<And>j. timeIndex \<le> j \<Longrightarrow> j < timeIndex + 1 \<Longrightarrow> schedule st day j = None"
    using slotFits_free [OF lecture.hyps(2)] by simp
  have disj: "\<forall>e \<in> set (timetableEntries st). \<not> overlaps e ?e"
  proof
    fix e assume "e \<in> set (timetableEntries st)"
    with lecture.IH have "occupies st e" by blast
    then show "\<not> overlaps e ?e"
      by (rule new_session_disjoint [where ti = timeIndex and d = 1 and day = day])
         (use free lab in simp_all)
  qed
  have old: "\<forall>e \<in> set (timetableEntries st). occupies ?st' e"
    using lecture.IH by (auto simp: occupies_def commitLecture_schedule)
  have new: "occupies ?st' ?e"
    unfolding occupies_def
    using lab ti
    by (intro exI [of _ timeIndex] exI [of _ "timeIndex + 1"])
       (auto simp: commitLecture_schedule)
  from lecture.IH disj old new show ?case
    by (auto simp: commitLecture_entries sorted_wrt_append)
next
  case (session st day k facultyId room timeIndex b j subject n)
  let ?e = "batchEntry sectionId subject k facultyId room day timeIndex b"
  let ?st' = "commitBatch sectionId subject k facultyId room day timeIndex b (setKindRoomIndex k n st)"
  from session.hyps(2) have g: "fitsGrid timeIndex (kindDuration k)" by (rule slotFits_fitsGrid)
  then have ti: "timeIndex < 10" "timeIndex + kindDuration k \<le> 10"
    using kindDuration_pos [of k] by (simp_all add: fitsGrid_def)
  have lab: "minutesOf (start_time ?e) = 480 + 60 * timeIndex \<and>
             minutesOf (end_time ?e) = 480 + 60 * (timeIndex + kindDuration k)"
    using ti by (intro minutes_labels) simp_all
  have free: "\<And>j. timeIndex \<le> j \<Longrightarrow> j < timeIndex + kindDuration k \<Longrightarrow> schedule st day j = None"
    using slotFits_free [OF session.hyps(2)] by simp
  have disj: "\<forall>e \<in> set (timetableEntries st). \<not> overlaps e ?e"
  proof
    fix e assume "e \<in> set (timetableEntries st)"
    with session.IH have "occupies st e" by blast
    then show "\<not> overlaps e ?e"
      by (rule new_session_disjoint [where ti = timeIndex and d = "kindDuration k" and day = day])
         (use free lab kindDuration_pos in simp_all)
  qed
  have old: "\<forall>e \<in> set (timetableEntries st). occupies ?st' e"
    using session.IH by (auto simp: occupies_def commitBatch_schedule)
  have new: "occupies ?st' ?e"
    unfolding occupies_def
    using lab ti kindDuration_pos [of k]
    by (intro exI [of _ timeIndex] exI [of _ "timeIndex + kindDuration k"])
       (auto simp: commitBatch_schedule)
  from session.IH disj old new show ?case
    by (auto simp: commitBatch_entries sorted_wrt_append)
qed

text \<open>
  C9. No two entries of one generation run overlap: whenever two of them are on the same day,
  their time intervals \<open>[start, end)\<close> are disjoint, whatever their batches, rooms and faculty
  members. The engine commits a session only on cells of the section's own grid that are
  null and sets them afterwards. In particular the batch sessions of one lab or tutorial
  subject never overlap each other.
\<close>

theorem section_sessions_disjoint:
  assumes "i < j" and "j < length (generate R C sectionId)"
  shows "\<not> overlaps (generate R C sectionId ! i) (generate R C sectionId ! j)"
proof -
  have "sorted_wrt (\<lambda>a b. \<not> overlaps a b) (generate R C sectionId)"
    using reachable_no_overlap [OF finalState_reachable, of R C sectionId]
    by (simp add: generate_def)
  with assms show ?thesis by (simp add: sorted_wrt_iff_nth_less)
qed

text \<open>In the example run the labs of batch 1 and batch 2 are both on Monday.\<close>

theorem section_sessions_disjoint_witness:
  "(2::nat) < 3 \<and> 3 < length (generate keepOrder exampleInputs ''s'') \<and>
   day_of_week (generate keepOrder exampleInputs ''s'' ! 2) =
     day_of_week (generate keepOrder exampleInputs ''s'' ! 3) \<and>
   \<not> overlaps (generate keepOrder exampleInputs ''s'' ! 2) (generate keepOrder exampleInputs ''s'' ! 3)"
proof -
  have i: "(2::nat) < 3" by simp
  have j: "3 < length (generate keepOrder exampleInputs ''s'')" by (simp add: example_keepOrder)
  have d: "day_of_week (generate keepOrder exampleInputs ''s'' ! 2) =
     day_of_week (generate keepOrder exampleInputs ''s'' ! 3)"
    by (simp add: example_keepOrder mkEntry_def)
  from i j d section_sessions_disjoint [OF i j] show ?thesis by (intro conjI)
qed

section \<open>Entries off the slot grid are skipped by the seeding (C10)\<close>

lemma seedEntry_skip:
  "take 5 (start_time e) \<notin> set timeSlots \<or> take 5 (end_time e) \<notin> set timeSlots \<Longrightarrow>
   seedEntry e st = st"
  by (auto simp: seedEntry_def getTimeIndex_def indexOf_None [symmetric] split: option.splits)

lemma scheduleLectures_existing [simp]:
  "scheduleLectures R (C\<lparr>existingTimetable := xs\<rparr>) = scheduleLectures R C"
  by (simp add: fun_eq_iff scheduleLectures_def Let_def split: list.splits)

lemma kindRooms_existing [simp]: "kindRooms (C\<lparr>existingTimetable := xs\<rparr>) k = kindRooms C k"
  by (cases k) simp_all

lemma scheduleBatches_existing [simp]:
  "scheduleBatches R (C\<lparr>existingTimetable := xs\<rparr>) = scheduleBatches R C"
  by (simp add: fun_eq_iff scheduleBatches_def batches_def Let_def split: list.splits)

lemma scheduleLabsAndTutorials_existing [simp]:
  "scheduleLabsAndTutorials R (C\<lparr>existingTimetable := xs\<rparr>) = scheduleLabsAndTutorials R C"
  by (simp add: fun_eq_iff scheduleLabsAndTutorials_def)

text \<open>
  C10. An existing entry of another section whose start time or end time, cut to its first
  five characters, is not one of the ten slot labels 08:00 to 17:00 leaves the state untouched
  when the grid is seeded, so it marks nobody busy; and the generated entries are the same as
  if the entry were not among the existing entries at all.
\<close>

theorem off_grid_entry_skipped:
  assumes "take 5 (start_time e) \<notin> set timeSlots \<or> take 5 (end_time e) \<notin> set timeSlots"
  shows "seedEntry e st = st \<and>
         generate R (C\<lparr>existingTimetable := xs @ e # ys\<rparr>) sectionId =
         generate R (C\<lparr>existingTimetable := xs @ ys\<rparr>) sectionId"
proof -
  from assms have skip: "\<And>st. seedEntry e st = st" by (rule seedEntry_skip)
  then have "seededState (C\<lparr>existingTimetable := xs @ e # ys\<rparr>) =
             seededState (C\<lparr>existingTimetable := xs @ ys\<rparr>)"
    by (simp add: seededState_def)
  with skip show ?thesis by (simp add: generate_def finalState_def)
qed

text \<open>An entry that ends at 18:00 is such an entry.\<close>

theorem off_grid_entry_skipped_witness:
  "take 5 (end_time lateEntry) \<notin> set timeSlots \<and>
   seedEntry lateEntry initialState = initialState \<and>
   generate keepOrder (exampleInputs\<lparr>existingTimetable := [lateEntry]\<rparr>) ''s'' =
   generate keepOrder exampleInputs ''s''"
proof -
  have h: "take 5 (end_time lateEntry) \<notin> set timeSlots"
    by (simp add: lateEntry_def mkEntry_def timeSlots_def)
  then have h': "take 5 (start_time lateEntry) \<notin> set timeSlots \<or> take 5 (end_time lateEntry) \<notin> set timeSlots"
    by simp
  have same: "exampleInputs\<lparr>existingTimetable := []\<rparr> = exampleInputs"
    by (simp add: exampleInputs_def)
  from off_grid_entry_skipped [OF h', where st = initialState and R = keepOrder
      and C = exampleInputs and xs = "[]" and ys = "[]" and sectionId = "''s''"] h same
  show ?thesis by simp
qed

end
